theory Spec2Isabelle
  imports Complex_Main "HOL-Library.AList" "HOL-Library.Sublist"
begin

section \<open>Python values and strings\<close>

text \<open>
  A raised exception is represented by its description \<open>str(e)\<close>.  A computation that
  may raise returns \<open>fault + 'a\<close>, with \<open>Inl\<close> for the raise.
\<close>

type_synonym fault = string

text \<open>
  Python floats.  A finite float is represented by the real number it stands for (rounding
  is not modelled); the three special values that \<open>json.loads\<close> and \<open>float()\<close> can
  produce are kept apart, because comparisons treat them specially.
\<close>

datatype pyfloat = Finite real | PosInf | NegInf | NaN

text \<open>The values a decoded JSON document (and a Python dict literal of the source) holds.\<close>

datatype pyval =
    PNone
  | PBool bool
  | PInt int
  | PFloat pyfloat
  | PStr string
  | PList "pyval list"
  | PDict "(string \<times> pyval) list"

text \<open>A dict keeps its insertion order: an association list, looked up with \<open>map_of\<close>.\<close>

type_synonym pydict = "(string \<times> pyval) list"

text \<open>\<open>a < b\<close> on floats: false as soon as one side is NaN.\<close>

fun f_lt :: "pyfloat \<Rightarrow> pyfloat \<Rightarrow> bool" where
  "f_lt NaN _ = False"
| "f_lt _ NaN = False"
| "f_lt (Finite a) (Finite b) = (a < b)"
| "f_lt NegInf NegInf = False"
| "f_lt NegInf _ = True"
| "f_lt _ NegInf = False"
| "f_lt PosInf _ = False"
| "f_lt (Finite a) PosInf = True"

text \<open>The numeric value of a bool, an int or a float; every other value is not a number.\<close>

fun as_number :: "pyval \<Rightarrow> pyfloat option" where
  "as_number (PBool b) = Some (Finite (if b then 1 else 0))"
| "as_number (PInt n) = Some (Finite (real_of_int n))"
| "as_number (PFloat x) = Some x"
| "as_number _ = None"


text \<open>
  \<open>str.lower()\<close> on the ASCII letters (strings are byte lists; the phrases the source
  searches for are ASCII).
\<close>

definition lower_char :: "char \<Rightarrow> char" where
  "lower_char c =
     (let n = (of_char c :: nat) in if 65 \<le> n \<and> n \<le> 90 then char_of (n + 32) else c)"

definition py_lower :: "string \<Rightarrow> string" where
  "py_lower s = map lower_char s"

text \<open>\<open>sub in s\<close> on strings: \<open>sub\<close> occurs in \<open>s\<close> as a contiguous run.\<close>

fun str_in :: "string \<Rightarrow> string \<Rightarrow> bool" where
  "str_in sub [] = (sub = [])"
| "str_in sub (c # cs) = (prefix sub (c # cs) \<or> str_in sub cs)"


section \<open>The Matcher's decision: \<open>should_apply\<close>\<close>








section \<open>Computations with state and faults\<close>

text \<open>
  A statement sequence that reads and writes a state \<open>'s\<close> and may raise: the state
  after a raise is kept, since an \<open>except\<close> block continues from it.
\<close>

type_synonym ('a, 's) io = "'s \<Rightarrow> (fault + 'a) \<times> 's"

definition ret :: "'a \<Rightarrow> ('a, 's) io" where
  "ret v s = (Inr v, s)"

definition raise :: "fault \<Rightarrow> ('a, 's) io" where
  "raise e s = (Inl e, s)"

definition lift :: "fault + 'a \<Rightarrow> ('a, 's) io" where
  "lift r s = (r, s)"

definition bnd :: "('a, 's) io \<Rightarrow> ('a \<Rightarrow> ('b, 's) io) \<Rightarrow> ('b, 's) io" where
  "bnd m f s = (case m s of (Inl e, s') \<Rightarrow> (Inl e, s') | (Inr v, s') \<Rightarrow> f v s')"

text \<open>\<open>try: m  except Exception as e: handler e\<close>.\<close>

definition try_except :: "('a, 's) io \<Rightarrow> (fault \<Rightarrow> ('a, 's) io) \<Rightarrow> ('a, 's) io" where
  "try_except m handler s =
     (case m s of (Inl e, s') \<Rightarrow> handler e s' | (Inr v, s') \<Rightarrow> (Inr v, s'))"

section \<open>The store of dict objects\<close>

text \<open>
  Dicts are mutable objects: the resume mapping, the local \<open>resume_summaries\<close>, the
  decoded response and the fallback result each live in a cell of the store and are
  referred to by address.  Addresses below \<open>next_addr\<close> are allocated.
\<close>

record store =
  cells :: "nat \<Rightarrow> pydict"
  next_addr :: nat

text \<open>A dict display \<open>{...}\<close> or a dict built by \<open>json.loads\<close>: a new object.\<close>

definition new_dict :: "pydict \<Rightarrow> (nat, store) io" where
  "new_dict d h =
     (Inr (next_addr h),
      h\<lparr>cells := (cells h)(next_addr h := d), next_addr := Suc (next_addr h)\<rparr>)"

text \<open>\<open>d.items()\<close>, in iteration order.\<close>

definition dict_items :: "nat \<Rightarrow> (pydict, store) io" where
  "dict_items a h = (Inr (cells h a), h)"

text \<open>\<open>d[key]\<close>: KeyError on a missing key.\<close>

definition dict_getitem :: "nat \<Rightarrow> string \<Rightarrow> (pyval, store) io" where
  "dict_getitem a key h =
     (case map_of (cells h a) key of
        None \<Rightarrow> (Inl (''KeyError: '' @ key), h)
      | Some v \<Rightarrow> (Inr v, h))"

text \<open>\<open>key in d\<close> for a string key.\<close>

definition dict_contains :: "nat \<Rightarrow> string \<Rightarrow> (bool, store) io" where
  "dict_contains a key h = (Inr (map_of (cells h a) key \<noteq> None), h)"

text \<open>
  \<open>d[key] = v\<close>: an existing key keeps its position, a new key is appended.
\<close>

definition dict_set :: "nat \<Rightarrow> string \<Rightarrow> pyval \<Rightarrow> (unit, store) io" where
  "dict_set a key v h =
     (Inr (), h\<lparr>cells := (cells h)(a := AList.update key v (cells h a))\<rparr>)"

section \<open>Library functions the Matcher calls\<close>

text \<open>
  The language model and the parsers of the Python library are outside the repository:
  they are parameters.  \<open>generate_content\<close> stands for
  \<open>self.model.generate_content(prompt)\<close> followed by \<open>response.text\<close>.
\<close>

record pylib =
  generate_content :: "string \<Rightarrow> fault + string"
  json_loads :: "string \<Rightarrow> fault + pyval"
  str_to_float :: "string \<Rightarrow> fault + pyfloat"
  str_to_int :: "string \<Rightarrow> fault + int"

text \<open>
  \<open>float(v)\<close>.  An int that rounds to a float beyond the largest double raises
  OverflowError.
\<close>

definition py_float :: "pylib \<Rightarrow> pyval \<Rightarrow> fault + pyfloat" where
  "py_float lib v =
     (case v of
        PFloat x \<Rightarrow> Inr x
      | PInt n \<Rightarrow>
          (if 2 ^ 1024 - 2 ^ 970 \<le> \<bar>n\<bar>
           then Inl ''OverflowError: int too large to convert to float''
           else Inr (Finite (real_of_int n)))
      | PBool b \<Rightarrow> Inr (Finite (if b then 1 else 0))
      | PStr s \<Rightarrow> str_to_float lib s
      | _ \<Rightarrow> Inl ''TypeError: float() argument must be a string or a real number'')"

text \<open>\<open>int(v)\<close>: a float is truncated towards zero.\<close>

definition py_int :: "pylib \<Rightarrow> pyval \<Rightarrow> fault + int" where
  "py_int lib v =
     (case v of
        PInt n \<Rightarrow> Inr n
      | PBool b \<Rightarrow> Inr (if b then 1 else 0)
      | PFloat (Finite r) \<Rightarrow> Inr (if 0 \<le> r then \<lfloor>r\<rfloor> else \<lceil>r\<rceil>)
      | PFloat NaN \<Rightarrow> Inl ''ValueError: cannot convert float NaN to integer''
      | PFloat _ \<Rightarrow> Inl ''OverflowError: cannot convert float infinity to integer''
      | PStr s \<Rightarrow> str_to_int lib s
      | _ \<Rightarrow> Inl ''TypeError: int() argument must be a string or a real number'')"

text \<open>
  The builtins \<open>min(a, b)\<close> and \<open>max(a, b)\<close> on floats: the first argument is kept
  unless the second compares strictly below (above) it.
\<close>

definition py_min :: "pyfloat \<Rightarrow> pyfloat \<Rightarrow> pyfloat" where
  "py_min a b = (if f_lt b a then b else a)"

definition py_max :: "pyfloat \<Rightarrow> pyfloat \<Rightarrow> pyfloat" where
  "py_max a b = (if f_lt a b then b else a)"

text \<open>\<open>x / 100.0\<close>.\<close>

fun div100 :: "pyfloat \<Rightarrow> pyfloat" where
  "div100 (Finite r) = Finite (r / 100)"
| "div100 x = x"

text \<open>\<open>xs[i]\<close>: IndexError out of range.\<close>

definition py_index :: "'a list \<Rightarrow> nat \<Rightarrow> fault + 'a" where
  "py_index xs i = (if i < length xs then Inr (xs ! i) else Inl ''IndexError: list index out of range'')"

text \<open>\<open>s.split(sep)\<close> for a non-empty separator.\<close>

fun split_from :: "string \<Rightarrow> string \<Rightarrow> string \<Rightarrow> string list" where
  "split_from sep acc [] = [rev acc]"
| "split_from sep acc (c # cs) =
     (if prefix sep (c # cs) then rev acc # split_from sep [] (drop (length sep - 1) cs)
      else split_from sep (c # acc) cs)"

definition py_split :: "string \<Rightarrow> string \<Rightarrow> string list" where
  "py_split s sep = split_from sep [] s"

text \<open>Whitespace, \<open>s.strip()\<close>, \<open>s.split()\<close> and \<open>sep.join(xs)\<close>.\<close>

definition is_space :: "char \<Rightarrow> bool" where
  "is_space c = (let n = (of_char c :: nat) in (9 \<le> n \<and> n \<le> 13) \<or> (28 \<le> n \<and> n \<le> 32))"

definition py_strip :: "string \<Rightarrow> string" where
  "py_strip s = rev (dropWhile is_space (rev (dropWhile is_space s)))"

fun words_from :: "string \<Rightarrow> string \<Rightarrow> string list" where
  "words_from acc [] = (if acc = [] then [] else [rev acc])"
| "words_from acc (c # cs) =
     (if is_space c then (if acc = [] then words_from [] cs else rev acc # words_from [] cs)
      else words_from (c # acc) cs)"

definition py_words :: "string \<Rightarrow> string list" where
  "py_words s = words_from [] s"

fun py_join :: "string \<Rightarrow> string list \<Rightarrow> string" where
  "py_join sep [] = []"
| "py_join sep [x] = x"
| "py_join sep (x # y # ys) = x @ sep @ py_join sep (y # ys)"

section \<open>The Matcher: \<open>select_best_resume\<close>\<close>

subsection \<open>\<open>_fallback_selection\<close>\<close>

text \<open>
  \<open>list(resumes.keys())[0]\<close> raises IndexError on an empty mapping; otherwise the dict
  display of the \<open>return\<close> statement, a new object, is returned.
\<close>

definition fallback_result :: "string \<Rightarrow> pydict" where
  "fallback_result first_resume =
     [(''selected_resume'', PStr first_resume),
      (''confidence'', PFloat (Finite 0.5)),
      (''reasoning'', PStr ''Fallback selection due to LLM error''),
      (''match_score'', PInt 50),
      (''key_matches'', PList [])]"

definition fallback_selection :: "nat \<Rightarrow> (nat, store) io" where
  "fallback_selection resumes =
     bnd (dict_items resumes) (\<lambda>items.
     bnd (lift (py_index (map fst items) 0)) (\<lambda>first_resume.
       new_dict (fallback_result first_resume)))"

subsection \<open>\<open>_build_matching_prompt\<close>\<close>

definition nl :: string where
  "nl = [CHR 0x0A]"

text \<open>\<open>data['text']\<close> followed by \<open>text.split()\<close>: the record must be a dict with a string under \<open>text\<close>.\<close>

definition record_words :: "pyval \<Rightarrow> fault + string list" where
  "record_words data =
     (case data of
        PDict attrs \<Rightarrow>
          (case map_of attrs ''text'' of
             None \<Rightarrow> Inl ''KeyError: text''
           | Some (PStr text) \<Rightarrow> Inr (py_words text)
           | Some _ \<Rightarrow> Inl ''AttributeError: object has no attribute split'')
      | _ \<Rightarrow> Inl ''TypeError: object is not subscriptable'')"

text \<open>
  The first loop: \<open>resume_summaries[filename] = ' '.join(text.split()[:800])\<close> for every
  item of \<open>resumes\<close>.
\<close>

fun summarize :: "pydict \<Rightarrow> nat \<Rightarrow> (unit, store) io" where
  "summarize [] resume_summaries = ret ()"
| "summarize ((filename, data) # items) resume_summaries =
     bnd (lift (record_words data)) (\<lambda>ws.
     bnd (dict_set resume_summaries filename (PStr (py_join '' '' (take 800 ws)))) (\<lambda>_.
       summarize items resume_summaries))"

text \<open>The second loop appends one delimited section per summary.\<close>

fun resume_sections :: "pydict \<Rightarrow> string" where
  "resume_sections [] = []"
| "resume_sections ((filename, text) # items) =
     nl @ nl @ ''=== '' @ filename @ '' ==='' @ nl @ (case text of PStr t \<Rightarrow> t | _ \<Rightarrow> []) @ nl
       @ resume_sections items"

definition prompt_intro :: string where
  "prompt_intro =
     ''You are an expert resume matcher for job applications. Your task is to analyze a job description and select the BEST resume from the available options.''
       @ nl @ nl"

definition prompt_task :: string where
  \<open>prompt_task =
     nl @ nl @ ''TASK:'' @ nl
     @ ''Analyze the job requirements and select the resume that is the BEST match. Consider:'' @ nl
     @ ''1. Technical skills alignment (frameworks, languages, tools)'' @ nl
     @ ''2. Experience level match (junior/mid/senior)'' @ nl
     @ ''3. Domain expertise (frontend/backend/fullstack/devops/etc.)'' @ nl
     @ ''4. Relevant projects or achievements'' @ nl @ nl
     @ ''RESPOND ONLY IN THIS EXACT JSON FORMAT (no markdown, no explanation outside JSON):'' @ nl
     @ ''{'' @ nl
     @ ''  "selected_resume": "exact_filename.pdf",'' @ nl
     @ ''  "confidence": 0.85,'' @ nl
     @ ''  "reasoning": "Brief 1-2 sentence explanation of why this resume is best",'' @ nl
     @ ''  "match_score": 85,'' @ nl
     @ ''  "key_matches": ["React", "TypeScript", "5+ years experience"]'' @ nl
     @ ''}'' @ nl @ nl
     @ ''Rules:'' @ nl
     @ ''- selected_resume MUST be one of the exact filenames provided'' @ nl
     @ ''- confidence: 0.0 to 1.0 (decimal)'' @ nl
     @ ''- match_score: 0 to 100 (integer)'' @ nl
     @ ''- Be decisive - always pick ONE resume, even if none are perfect'' @ nl
     @ ''- If multiple resumes are equally good, pick the most specialized one'' @ nl\<close>

definition build_matching_prompt :: "string \<Rightarrow> nat \<Rightarrow> string option \<Rightarrow> (string, store) io" where
  "build_matching_prompt job_description resumes job_title =
     bnd (new_dict []) (\<lambda>resume_summaries.
     bnd (dict_items resumes) (\<lambda>items.
     bnd (summarize items resume_summaries) (\<lambda>_.
     bnd (dict_items resume_summaries) (\<lambda>summaries.
       ret (prompt_intro
            @ (case job_title of
                 None \<Rightarrow> []
               | Some t \<Rightarrow> if t = [] then [] else ''Job Title: '' @ t @ nl @ nl)
            @ ''Job Description:'' @ nl @ ''---'' @ nl
            @ take 3000 job_description @ ''  '' @ nl @ ''---'' @ nl @ nl
            @ ''Available Resumes:'' @ nl
            @ resume_sections summaries
            @ prompt_task)))))"

subsection \<open>\<open>_parse_llm_response\<close>\<close>

text \<open>Removal of a fenced code block around the JSON text.\<close>

definition strip_fences :: "string \<Rightarrow> fault + string" where
  "strip_fences response_text =
     (if str_in ''```json'' response_text then
        (case py_index (py_split response_text ''```json'') 1 of
           Inl e \<Rightarrow> Inl e
         | Inr rest \<Rightarrow> py_index (py_split rest ''```'') 0)
      else if str_in ''```'' response_text then
        (case py_index (py_split response_text ''```'') 1 of
           Inl e \<Rightarrow> Inl e
         | Inr rest \<Rightarrow> py_index (py_split rest ''```'') 0)
      else Inr response_text)"

definition required_fields :: "string list" where
  "required_fields = [''selected_resume'', ''confidence'', ''reasoning'', ''match_score'']"

text \<open>
  \<open>for field in required_fields: if field not in result: raise ValueError(...)\<close>, for a
  decoded dict.
\<close>

fun check_required :: "string list \<Rightarrow> nat \<Rightarrow> (unit, store) io" where
  "check_required [] result = ret ()"
| "check_required (field # others) result =
     bnd (dict_contains result field) (\<lambda>present.
       if \<not> present then raise (''Missing required field: '' @ field)
       else check_required others result)"

text \<open>
  The same loop for a decoded value that is not a dict: \<open>in\<close> is substring search on a
  string, membership on a list and a TypeError otherwise.  When no field is reported
  missing, the subscript \<open>result['selected_resume']\<close> that follows raises TypeError.
\<close>

fun check_required_other :: "string list \<Rightarrow> pyval \<Rightarrow> fault" where
  "check_required_other [] result = ''TypeError: indices must be integers''"
| "check_required_other (field # others) result =
     (case result of
        PStr s \<Rightarrow>
          (if \<not> str_in field s then ''Missing required field: '' @ field
           else check_required_other others result)
      | PList xs \<Rightarrow>
          (if PStr field \<notin> set xs then ''Missing required field: '' @ field
           else check_required_other others result)
      | _ \<Rightarrow> ''TypeError: argument is not iterable'')"

text \<open>
  \<open>result['selected_resume'] not in resumes\<close>: a list or a dict is unhashable; a value
  that is not a string is never a key.
\<close>

definition key_in_resumes :: "pyval \<Rightarrow> pydict \<Rightarrow> fault + bool" where
  "key_in_resumes v items =
     (case v of
        PStr s \<Rightarrow> Inr (s \<in> set (map fst items))
      | PList _ \<Rightarrow> Inl ''TypeError: unhashable type''
      | PDict _ \<Rightarrow> Inl ''TypeError: unhashable type''
      | _ \<Rightarrow> Inr False)"

text \<open>\<open>v.lower()\<close>: only a string has the method.\<close>

definition lower_of :: "pyval \<Rightarrow> fault + string" where
  "lower_of v =
     (case v of
        PStr s \<Rightarrow> Inr (py_lower s)
      | _ \<Rightarrow> Inl ''AttributeError: object has no attribute lower'')"

text \<open>
  The \<open>for ... else\<close> loop over \<open>resumes.keys()\<close>: the first filename equal to the
  selection up to case, if any.
\<close>

fun closest_match :: "string list \<Rightarrow> string \<Rightarrow> string option" where
  "closest_match [] selected_lower = None"
| "closest_match (filename # filenames) selected_lower =
     (if py_lower filename = selected_lower then Some filename
      else closest_match filenames selected_lower)"

definition validate_selected :: "nat \<Rightarrow> nat \<Rightarrow> (unit, store) io" where
  "validate_selected result resumes =
     bnd (dict_getitem result ''selected_resume'') (\<lambda>selected.
     bnd (dict_items resumes) (\<lambda>items.
     bnd (lift (key_in_resumes selected items)) (\<lambda>present.
       if present then ret ()
       else
         bnd (lift (lower_of selected)) (\<lambda>selected_lower.
           case closest_match (map fst items) selected_lower of
             Some filename \<Rightarrow> dict_set result ''selected_resume'' (PStr filename)
           | None \<Rightarrow> raise (''Invalid resume: '' @ (case selected of PStr s \<Rightarrow> s | _ \<Rightarrow> []))))))"

text \<open>Lines 183 to 187: the confidence as a float, a value above 1.0 divided by 100, clamped.\<close>

definition normalize_confidence :: "nat \<Rightarrow> pylib \<Rightarrow> (unit, store) io" where
  "normalize_confidence result lib =
     bnd (dict_getitem result ''confidence'') (\<lambda>reported.
     bnd (lift (py_float lib reported)) (\<lambda>confidence.
       dict_set result ''confidence''
         (PFloat (py_max (Finite 0)
            (py_min (Finite 1)
               (if f_lt (Finite 1) confidence then div100 confidence else confidence))))))"

text \<open>Line 190.\<close>

definition validate_match_score :: "nat \<Rightarrow> pylib \<Rightarrow> (unit, store) io" where
  "validate_match_score result lib =
     bnd (dict_getitem result ''match_score'') (\<lambda>reported.
     bnd (lift (py_int lib reported)) (\<lambda>n.
       dict_set result ''match_score'' (PInt (max 0 (min 100 n)))))"

text \<open>The body of the \<open>try\<close> block of \<open>_parse_llm_response\<close>.\<close>

definition parse_body :: "pylib \<Rightarrow> string \<Rightarrow> nat \<Rightarrow> (nat, store) io" where
  "parse_body lib response_text resumes =
     bnd (lift (strip_fences response_text)) (\<lambda>json_text.
     bnd (lift (json_loads lib (py_strip json_text))) (\<lambda>decoded.
       case decoded of
         PDict d \<Rightarrow>
           bnd (new_dict d) (\<lambda>result.
           bnd (check_required required_fields result) (\<lambda>_.
           bnd (validate_selected result resumes) (\<lambda>_.
           bnd (normalize_confidence result lib) (\<lambda>_.
           bnd (validate_match_score result lib) (\<lambda>_.
             ret result)))))
       | other \<Rightarrow> raise (check_required_other required_fields other)))"

text \<open>Both handlers return the fallback selection.\<close>

definition parse_llm_response :: "pylib \<Rightarrow> string \<Rightarrow> nat \<Rightarrow> (nat, store) io" where
  "parse_llm_response lib response_text resumes =
     try_except (parse_body lib response_text resumes) (\<lambda>e. fallback_selection resumes)"

subsection \<open>\<open>select_best_resume\<close>\<close>

text \<open>
  The \<open>print\<close> after parsing reads \<open>result['selected_resume']\<close> and formats
  \<open>result['confidence']\<close> as a percentage, which needs a number.
\<close>

definition report_selection :: "nat \<Rightarrow> (unit, store) io" where
  "report_selection result =
     bnd (dict_getitem result ''selected_resume'') (\<lambda>_.
     bnd (dict_getitem result ''confidence'') (\<lambda>c.
       if as_number c = None then raise ''TypeError: unsupported format string''
       else ret ()))"

definition select_best_resume :: "pylib \<Rightarrow> string \<Rightarrow> nat \<Rightarrow> string option \<Rightarrow> (nat, store) io" where
  "select_best_resume lib job_description resumes job_title =
     bnd (dict_items resumes) (\<lambda>items.
       if items = [] then raise ''No resumes available for matching!''
       else
         bnd (build_matching_prompt job_description resumes job_title) (\<lambda>prompt.
           try_except
             (bnd (lift (generate_content lib prompt)) (\<lambda>text.
              bnd (parse_llm_response lib (py_strip text) resumes) (\<lambda>result.
              bnd (report_selection result) (\<lambda>_.
                ret result))))
             (\<lambda>e. fallback_selection resumes)))"

section \<open>The Applicator: \<open>apply_to_job\<close>\<close>

subsection \<open>The browser\<close>

text \<open>
  The page and the helpers of \<open>src.utils\<close> are outside the repository's sources: every
  call on them is a parameter that acts on the state \<open>'w\<close> of the outside world and may
  raise.  \<open>launch\<close> stands for the calls of \<open>start_browser\<close> up to the assignment of
  \<open>self.page\<close>.  An element is named by the selector of its locator, with an index for
  \<open>locator.nth(i)\<close>: \<open>locator_count\<close>, \<open>first_is_visible\<close> and \<open>is_visible\<close> stand for
  \<open>page.locator(sel).count()\<close>, \<open>.first.is_visible()\<close> and \<open>.is_visible()\<close>,
  \<open>option_is_visible\<close> and \<open>option_click\<close> for the calls on
  \<open>group.locator("label:has-text('answer')")\<close> inside the \<open>i\<close>-th fieldset.  An attribute
  or a text content that is absent is \<open>None\<close>.  The tables \<open>PROFILE\<close> and \<open>ANSWERS\<close> of
  \<open>user_config.py\<close> are the fields \<open>profile\<close> and \<open>answers\<close>, in the order of their
  items.
\<close>

record 'w browser =
  launch :: "'w \<Rightarrow> (fault + unit) \<times> 'w"
  add_init_script :: "'w \<Rightarrow> (fault + unit) \<times> 'w"
  goto :: "string \<Rightarrow> 'w \<Rightarrow> (fault + unit) \<times> 'w"
  human_sleep :: "real \<Rightarrow> real \<Rightarrow> 'w \<Rightarrow> (fault + unit) \<times> 'w"
  simulate_reading_pattern :: "string \<Rightarrow> 'w \<Rightarrow> (fault + unit) \<times> 'w"
  locator_count :: "string \<Rightarrow> 'w \<Rightarrow> (fault + nat) \<times> 'w"
  first_is_visible :: "string \<Rightarrow> 'w \<Rightarrow> (fault + bool) \<times> 'w"
  is_visible :: "string \<Rightarrow> 'w \<Rightarrow> (fault + bool) \<times> 'w"
  human_click :: "string \<Rightarrow> 'w \<Rightarrow> (fault + unit) \<times> 'w"
  get_attribute :: "string \<Rightarrow> string \<Rightarrow> 'w \<Rightarrow> (fault + string option) \<times> 'w"
  set_input_files :: "string \<Rightarrow> string \<Rightarrow> 'w \<Rightarrow> (fault + unit) \<times> 'w"
  nth_is_visible :: "string \<Rightarrow> nat \<Rightarrow> 'w \<Rightarrow> (fault + bool) \<times> 'w"
  nth_get_attribute :: "string \<Rightarrow> nat \<Rightarrow> string \<Rightarrow> 'w \<Rightarrow> (fault + string option) \<times> 'w"
  nth_fill :: "string \<Rightarrow> nat \<Rightarrow> string \<Rightarrow> 'w \<Rightarrow> (fault + unit) \<times> 'w"
  nth_text_content :: "string \<Rightarrow> nat \<Rightarrow> 'w \<Rightarrow> (fault + string option) \<times> 'w"
  inner_text :: "string \<Rightarrow> 'w \<Rightarrow> (fault + string) \<times> 'w"
  option_is_visible :: "string \<Rightarrow> nat \<Rightarrow> string \<Rightarrow> 'w \<Rightarrow> (fault + bool) \<times> 'w"
  option_click :: "string \<Rightarrow> nat \<Rightarrow> string \<Rightarrow> 'w \<Rightarrow> (fault + unit) \<times> 'w"
  profile :: "(string \<times> string) list"
  answers :: "(string \<times> string) list"

text \<open>
  The state of a \<open>JobBot\<close>: the world, whether \<open>self.page\<close> is set, and the selectors
  \<open>human_click\<close> has been called with so far, in order.
\<close>

record 'w bot =
  world :: 'w
  page :: bool
  clicks :: "string list"

definition on_world :: "('w \<Rightarrow> (fault + 'a) \<times> 'w) \<Rightarrow> ('a, 'w bot) io" where
  "on_world act s = (case act (world s) of (r, w') \<Rightarrow> (r, s\<lparr>world := w'\<rparr>))"

text \<open>\<open>human_click(self.page, selector)\<close>.\<close>

definition click :: "'w browser \<Rightarrow> string \<Rightarrow> (unit, 'w bot) io" where
  "click b selector s = on_world (human_click b selector) (s\<lparr>clicks := clicks s @ [selector]\<rparr>)"

definition start_browser :: "'w browser \<Rightarrow> (unit, 'w bot) io" where
  "start_browser b =
     bnd (on_world (launch b)) (\<lambda>_.
     bnd (\<lambda>s. (Inr (), s\<lparr>page := True\<rparr>)) (\<lambda>_.
       on_world (add_init_script b)))"

subsection \<open>Selectors\<close>

definition apply_locators :: "string list" where
  "apply_locators =
     [''button.jobs-apply-button'',
      ''button[aria-label*='Easy Apply']'',
      ''button:has-text('Easy Apply')'',
      ''a[aria-label*='Easy Apply']'',
      ''a:has-text('Easy Apply')'',
      ''a[data-view-name='job-apply-button']'',
      ''*[aria-label*='Easy Apply']'',
      ''*:has-text('Easy Apply')'']"

definition submit_button :: string where
  "submit_button = ''button[aria-label='Submit application']''"

definition next_button :: string where
  "next_button = ''button[aria-label='Next']''"

definition review_button :: string where
  "review_button = ''button[aria-label='Review']''"

definition error_message :: string where
  "error_message = ''.artdeco-inline-feedback__message''"

subsection \<open>\<open>_fill_smart_fields\<close>, \<open>_get_label\<close> and \<open>_handle_upload\<close>\<close>

definition text_inputs :: string where
  "text_inputs = ''input[type='text'], input[type='email'], input[type='tel']''"

definition fieldset :: string where
  "fieldset = ''fieldset''"

definition file_input :: string where
  "file_input = ''input[type='file']''"

text \<open>Truth value of an attribute: \<open>None\<close> and the empty string are false.\<close>

definition truthy :: "string option \<Rightarrow> bool" where
  "truthy v = (case v of None \<Rightarrow> False | Some t \<Rightarrow> t \<noteq> [])"

text \<open>
  \<open>_get_label(element)\<close>: the text of the label whose \<open>for\<close> is the element's id, and the
  empty string when there is no id or a call raises.
\<close>

definition get_label :: "'w browser \<Rightarrow> string \<Rightarrow> nat \<Rightarrow> (string, 'w bot) io" where
  "get_label b selector i =
     bnd (try_except
            (bnd (on_world (nth_get_attribute b selector i ''id'')) (\<lambda>id_val.
               case id_val of
                 None \<Rightarrow> ret None
               | Some v \<Rightarrow>
                   if v \<noteq> [] then
                     bnd (on_world (inner_text b (''label[for='' @ [CHR 0x27] @ v @ [CHR 0x27] @ '']'')))
                       (\<lambda>label. ret (Some label))
                   else ret None))
            (\<lambda>e. ret (Some [])))
         (\<lambda>returned. case returned of Some label \<Rightarrow> ret label | None \<Rightarrow> ret [])"

text \<open>
  \<open>for key, value in PROFILE.items()\<close>: the first key contained in the label fills the
  field and ends the loop.
\<close>

fun fill_from_profile ::
  "'w browser \<Rightarrow> nat \<Rightarrow> (string \<times> string) list \<Rightarrow> string \<Rightarrow> (unit, 'w bot) io" where
  "fill_from_profile b i [] label = ret ()"
| "fill_from_profile b i ((key, v) # items) label =
     (if str_in key label then
        bnd (on_world (nth_fill b text_inputs i v)) (\<lambda>_.
          on_world (human_sleep b 0.5 1))
      else fill_from_profile b i items label)"

text \<open>The body of \<open>for i in range(count)\<close> over the text inputs, and the loop from \<open>i\<close> on.\<close>

definition fill_input :: "'w browser \<Rightarrow> nat \<Rightarrow> (unit, 'w bot) io" where
  "fill_input b i =
     bnd (on_world (nth_is_visible b text_inputs i)) (\<lambda>visible.
       if visible then
         bnd (on_world (nth_get_attribute b text_inputs i ''value'')) (\<lambda>current.
           if \<not> truthy current then
             bnd (get_label b text_inputs i) (\<lambda>label.
               fill_from_profile b i (profile b) (py_lower label))
           else ret ())
       else ret ())"

fun fill_inputs :: "'w browser \<Rightarrow> nat \<Rightarrow> nat \<Rightarrow> (unit, 'w bot) io" where
  "fill_inputs b i 0 = ret ()"
| "fill_inputs b i (Suc remaining) =
     bnd (fill_input b i) (\<lambda>_. fill_inputs b (Suc i) remaining)"

text \<open>
  \<open>for question, answer in ANSWERS.items()\<close> inside the \<open>i\<close>-th fieldset: every question
  contained in the text selects its answer when the option is visible.
\<close>

fun answer_questions ::
  "'w browser \<Rightarrow> nat \<Rightarrow> (string \<times> string) list \<Rightarrow> string \<Rightarrow> (unit, 'w bot) io" where
  "answer_questions b i [] content = ret ()"
| "answer_questions b i ((question, answer) # items) content =
     bnd (if str_in question content then
            bnd (on_world (option_is_visible b fieldset i answer)) (\<lambda>visible.
              if visible then
                bnd (on_world (option_click b fieldset i answer)) (\<lambda>_.
                  on_world (human_sleep b 0.5 1))
              else ret ())
          else ret ())
       (\<lambda>_. answer_questions b i items content)"

text \<open>
  The loop over the fieldsets; \<open>text_content()\<close> that is \<open>None\<close> has no \<open>lower\<close>.
\<close>

fun fill_fieldsets :: "'w browser \<Rightarrow> nat \<Rightarrow> nat \<Rightarrow> (unit, 'w bot) io" where
  "fill_fieldsets b i 0 = ret ()"
| "fill_fieldsets b i (Suc remaining) =
     bnd (on_world (nth_text_content b fieldset i)) (\<lambda>content.
     bnd (case content of
            None \<Rightarrow> raise ''AttributeError: NoneType object has no attribute lower''
          | Some t \<Rightarrow> answer_questions b i (answers b) (py_lower t)) (\<lambda>_.
       fill_fieldsets b (Suc i) remaining))"

text \<open>\<open>_fill_smart_fields\<close>: every exception of the body is swallowed.\<close>

definition fill_smart_fields :: "'w browser \<Rightarrow> (unit, 'w bot) io" where
  "fill_smart_fields b =
     try_except
       (bnd (on_world (locator_count b text_inputs)) (\<lambda>count.
        bnd (fill_inputs b 0 count) (\<lambda>_.
        bnd (on_world (locator_count b fieldset)) (\<lambda>groups.
          fill_fieldsets b 0 groups))))
       (\<lambda>e. ret ())"

text \<open>\<open>_handle_upload\<close>: the file is attached when the input is visible and empty.\<close>

definition handle_upload :: "'w browser \<Rightarrow> string \<Rightarrow> (unit, 'w bot) io" where
  "handle_upload b resume_path =
     try_except
       (bnd (on_world (is_visible b file_input)) (\<lambda>visible.
          if visible then
            bnd (on_world (get_attribute b file_input ''value'')) (\<lambda>current.
              if \<not> truthy current then
                bnd (on_world (set_input_files b file_input resume_path)) (\<lambda>_.
                  on_world (human_sleep b 2 4))
              else ret ())
          else ret ()))
       (\<lambda>e. ret ())"

subsection \<open>Looking for the apply affordance\<close>

text \<open>
  The body of the \<open>try\<close> block inside the loop over \<open>apply_locators\<close>: the candidate is
  clicked when it is present and visible.  The value is \<open>True\<close> when the body reached
  \<open>break\<close>.
\<close>

definition probe :: "'w browser \<Rightarrow> string \<Rightarrow> (bool, 'w bot) io" where
  "probe b selector =
     bnd (on_world (locator_count b selector)) (\<lambda>n.
       if 0 < n then
         bnd (on_world (first_is_visible b selector)) (\<lambda>visible.
           if visible then bnd (click b selector) (\<lambda>_. ret True) else ret False)
       else ret False)"

text \<open>
  The loop over \<open>apply_locators\<close>; the result is \<open>clicked\<close>.  An exception inside one
  probe is followed by a pause and the next selector.
\<close>

fun click_easy_apply :: "'w browser \<Rightarrow> string list \<Rightarrow> (bool, 'w bot) io" where
  "click_easy_apply b [] = ret False"
| "click_easy_apply b (selector # selectors) =
     bnd (try_except (probe b selector)
            (\<lambda>e. bnd (on_world (human_sleep b 0.7 1.5)) (\<lambda>_. ret False)))
         (\<lambda>clicked. if clicked then ret True else click_easy_apply b selectors)"

subsection \<open>The form loop\<close>

text \<open>
  One pass through the body of \<open>for step in range(max_steps)\<close>.  The value is
  \<open>Some v\<close> when the body executed \<open>return v\<close> and \<open>None\<close> when it reached its end,
  so that the loop goes on.  The last statement of the body is
  \<open>return "Failed (Too many steps)"\<close>.
\<close>

definition form_step :: "'w browser \<Rightarrow> bool \<Rightarrow> string \<Rightarrow> (string option, 'w bot) io" where
  "form_step b dry_run resume_path =
     bnd (fill_smart_fields b) (\<lambda>_.
     bnd (handle_upload b resume_path) (\<lambda>_.
     bnd (on_world (is_visible b submit_button)) (\<lambda>submit_visible.
       if submit_visible then
         (if \<not> dry_run then
            bnd (try_except
                   (bnd (click b submit_button) (\<lambda>_.
                    bnd (on_world (human_sleep b 3 5)) (\<lambda>_. ret None)))
                   (\<lambda>e. ret (Some (''Failed (Submit error: '' @ e @ '')''))))
                (\<lambda>returned. case returned of
                   Some v \<Rightarrow> ret (Some v)
                 | None \<Rightarrow> ret (Some ''Success''))
          else ret (Some ''Success''))
       else
         bnd (on_world (is_visible b next_button)) (\<lambda>next_visible.
         bnd (if next_visible then bnd (click b next_button) (\<lambda>_. ret None)
              else
                bnd (on_world (is_visible b review_button)) (\<lambda>review_visible.
                  if review_visible then bnd (click b review_button) (\<lambda>_. ret None)
                  else
                    bnd (on_world (is_visible b error_message)) (\<lambda>error_visible.
                      if error_visible then ret (Some ''Failed (Form Error)'')
                      else ret (Some ''Failed (Stuck)''))))
             (\<lambda>returned. case returned of
                Some v \<Rightarrow> ret (Some v)
              | None \<Rightarrow>
                  bnd (on_world (human_sleep b 2 3)) (\<lambda>_.
                    ret (Some ''Failed (Too many steps)'')))))))"

definition max_steps :: nat where
  "max_steps = 10"

text \<open>
  \<open>for step in range(n)\<close>: \<open>None\<close> when the loop runs out, after which the function
  would end without a \<open>return\<close>.
\<close>

fun form_loop :: "'w browser \<Rightarrow> bool \<Rightarrow> string \<Rightarrow> nat \<Rightarrow> (string option, 'w bot) io" where
  "form_loop b dry_run resume_path 0 = ret None"
| "form_loop b dry_run resume_path (Suc n) =
     bnd (form_step b dry_run resume_path) (\<lambda>returned. case returned of
        Some v \<Rightarrow> ret (Some v)
      | None \<Rightarrow> form_loop b dry_run resume_path n)"

subsection \<open>\<open>apply_to_job\<close>\<close>

text \<open>The statements up to the form loop: navigation, reading, and the apply affordance.\<close>

definition searching :: "'w browser \<Rightarrow> string \<Rightarrow> (bool, 'w bot) io" where
  "searching b job_url =
     bnd (on_world (goto b job_url)) (\<lambda>_.
     bnd (on_world (human_sleep b 3 5)) (\<lambda>_.
     bnd (on_world (simulate_reading_pattern b ''h1'')) (\<lambda>_.
       click_easy_apply b apply_locators)))"

text \<open>The body of the \<open>try\<close> block.\<close>

definition apply_body :: "'w browser \<Rightarrow> bool \<Rightarrow> string \<Rightarrow> string \<Rightarrow> (string option, 'w bot) io" where
  "apply_body b dry_run job_url resume_path =
     bnd (searching b job_url) (\<lambda>clicked.
       if \<not> clicked then ret (Some ''Skipped'')
       else
         bnd (on_world (human_sleep b 2 3)) (\<lambda>_.
           form_loop b dry_run resume_path max_steps))"

text \<open>
  \<open>apply_to_job(job_url, resume_path)\<close>, with the flag \<open>DRY_RUN\<close> that \<open>bot.py\<close>
  imports from \<open>src.config\<close> as a parameter.  \<open>start_browser\<close> is called before the
  \<open>try\<close> block.  The value is what the call returns, \<open>None\<close> for Python's \<open>None\<close>.
\<close>

definition apply_to_job :: "'w browser \<Rightarrow> bool \<Rightarrow> string \<Rightarrow> string \<Rightarrow> (string option, 'w bot) io" where
  "apply_to_job b dry_run job_url resume_path =
     bnd (\<lambda>s. if \<not> page s then start_browser b s else ret () s) (\<lambda>_.
       try_except (apply_body b dry_run job_url resume_path)
         (\<lambda>e. ret (Some (''Failed: '' @ e))))"

section \<open>Input conditions, frames and sample data\<close>

text \<open>
  The input constraint of \<open>select_best_resume\<close>: every record of the mapping is a dict
  with a string under \<open>text\<close>.
\<close>

fun has_text :: "pyval \<Rightarrow> bool" where
  "has_text (PDict attrs) = (case map_of attrs ''text'' of Some (PStr t) \<Rightarrow> True | _ \<Rightarrow> False)"
| "has_text _ = False"

definition resume_records :: "pydict \<Rightarrow> bool" where
  "resume_records items = list_all (\<lambda>(filename, data). has_text data) items"



text \<open>
  A \<open>MatchResult\<close> over the given filenames: the selection is one of them, the
  confidence a finite float in [0, 1], the match score an int in [0, 100].
\<close>

definition valid_result :: "string list \<Rightarrow> pydict \<Rightarrow> bool" where
  "valid_result filenames d =
     ((case map_of d ''selected_resume'' of Some (PStr s) \<Rightarrow> s \<in> set filenames | _ \<Rightarrow> False) \<and>
      (case map_of d ''confidence'' of Some (PFloat (Finite c)) \<Rightarrow> 0 \<le> c \<and> c \<le> 1 | _ \<Rightarrow> False) \<and>
      (case map_of d ''match_score'' of Some (PInt m) \<Rightarrow> 0 \<le> m \<and> m \<le> 100 | _ \<Rightarrow> False))"

text \<open>
  \<open>frames n m Q\<close>: run from a store whose first \<open>n\<close> addresses are allocated, \<open>m\<close>
  leaves the dicts at these addresses as they are, and a value it returns satisfies \<open>Q\<close>.
\<close>

definition frames :: "nat \<Rightarrow> ('a, store) io \<Rightarrow> ('a \<Rightarrow> bool) \<Rightarrow> bool" where
  "frames n m Q =
     (\<forall>h. n \<le> next_addr h \<longrightarrow>
        (case m h of (r, h') \<Rightarrow>
           n \<le> next_addr h' \<and> (\<forall>a<n. cells h' a = cells h a) \<and>
           (case r of Inl e \<Rightarrow> True | Inr v \<Rightarrow> Q v)))"

text \<open>
  Sample data: a store that holds a mapping of two resumes at address 0, a store whose
  mapping is empty, a store whose mapping holds one record without \<open>text\<close>, and a
  language model that answers with a fixed reply (or fault) and decodes one JSON text.
\<close>

definition demo_resumes :: pydict where
  "demo_resumes =
     [(''a.pdf'', PDict [(''text'', PStr ''Backend engineer: Python, PostgreSQL''),
                         (''filename'', PStr ''a.pdf'')]),
      (''b.pdf'', PDict [(''text'', PStr ''Frontend developer: React, TypeScript''),
                         (''filename'', PStr ''b.pdf'')])]"

definition demo_store :: store where
  "demo_store = \<lparr>cells = (\<lambda>a. if a = 0 then demo_resumes else []), next_addr = 1\<rparr>"



definition percent_reply :: string where
  \<open>percent_reply =
     ''```json {"selected_resume": "b.pdf", "confidence": 85, "reasoning": "React and TypeScript", "match_score": 90} ```''\<close>

definition percent_json :: string where
  \<open>percent_json =
     ''{"selected_resume": "b.pdf", "confidence": 85, "reasoning": "React and TypeScript", "match_score": 90}''\<close>

definition percent_dict :: pydict where
  "percent_dict =
     [(''selected_resume'', PStr ''b.pdf''), (''confidence'', PInt 85),
      (''reasoning'', PStr ''React and TypeScript''), (''match_score'', PInt 90)]"

definition scripted_model :: "fault + string \<Rightarrow> pylib" where
  "scripted_model reply =
     \<lparr>generate_content = (\<lambda>prompt. reply),
      json_loads = (\<lambda>t. if t = percent_json then Inr (PDict percent_dict)
                         else Inl ''Expecting value: line 1 column 1 (char 0)''),
      str_to_float = (\<lambda>s. Inl ''ValueError: could not convert string to float''),
      str_to_int = (\<lambda>s. Inl ''ValueError: invalid literal for int()'')\<rparr>"

text \<open>
  The terminal outcomes: the strings a pass through the form loop returns, and the strings
  \<open>apply_to_job\<close> returns.
\<close>

definition step_outcome :: "string \<Rightarrow> bool" where
  "step_outcome out =
     (out = ''Success'' \<or> (\<exists>e. out = ''Failed (Submit error: '' @ e @ '')'')
      \<or> out = ''Failed (Form Error)'' \<or> out = ''Failed (Stuck)''
      \<or> out = ''Failed (Too many steps)'')"

definition job_outcome :: "string \<Rightarrow> bool" where
  "job_outcome out = (out = ''Skipped'' \<or> step_outcome out \<or> (\<exists>e. out = ''Failed: '' @ e))"

text \<open>
  \<open>run_within C m Q\<close>: \<open>m\<close> leaves \<open>self.page\<close> as it is, calls \<open>human_click\<close> with
  selectors of \<open>C\<close> only, and a value it returns satisfies \<open>Q\<close>.
\<close>

definition run_within :: "string set \<Rightarrow> ('a, 'w bot) io \<Rightarrow> ('a \<Rightarrow> bool) \<Rightarrow> bool" where
  "run_within C m Q =
     (\<forall>s. case m s of (r, s') \<Rightarrow>
        page s' = page s \<and> (\<exists>cs. clicks s' = clicks s @ cs \<and> set cs \<subseteq> C) \<and>
        (case r of Inl e \<Rightarrow> True | Inr v \<Rightarrow> Q v))"

text \<open>
  Sample browsers.  The world is the list of pages still to come, each page the list of
  selectors visible on it; a click moves on to the next page.  \<open>broken_fields\<close> raises
  while the fields are scanned, \<open>broken_submit\<close> on the click on the submit button,
  \<open>no_chrome\<close> when the browser is launched and \<open>offline\<close> on navigation.
\<close>

type_synonym pages = "string list list"

definition showing :: "pages \<Rightarrow> string \<Rightarrow> bool" where
  "showing w selector = (case w of [] \<Rightarrow> False | visible # _ \<Rightarrow> selector \<in> set visible)"

definition scripted :: "pages browser" where
  "scripted =
     \<lparr>launch = (\<lambda>w. (Inr (), w)),
      add_init_script = (\<lambda>w. (Inr (), w)),
      goto = (\<lambda>url w. (Inr (), w)),
      human_sleep = (\<lambda>lo hi w. (Inr (), w)),
      simulate_reading_pattern = (\<lambda>selector w. (Inr (), w)),
      locator_count = (\<lambda>selector w. (Inr (if showing w selector then 1 else 0), w)),
      first_is_visible = (\<lambda>selector w. (Inr (showing w selector), w)),
      is_visible = (\<lambda>selector w. (Inr (showing w selector), w)),
      human_click = (\<lambda>selector w. (Inr (), tl w)),
      get_attribute = (\<lambda>selector name w. (Inr None, w)),
      set_input_files = (\<lambda>selector path w. (Inr (), w)),
      nth_is_visible = (\<lambda>selector i w. (Inr (showing w selector), w)),
      nth_get_attribute = (\<lambda>selector i name w. (Inr None, w)),
      nth_fill = (\<lambda>selector i v w. (Inr (), w)),
      nth_text_content = (\<lambda>selector i w. (Inr None, w)),
      inner_text = (\<lambda>selector w. (Inr [], w)),
      option_is_visible = (\<lambda>selector i answer w. (Inr False, w)),
      option_click = (\<lambda>selector i answer w. (Inr (), w)),
      profile = [(''first_name'', ''Ada''), (''email'', ''ada@example.org'')],
      answers = [(''relocate'', ''Yes''), (''sponsorship'', ''No'')]\<rparr>"

definition broken_fields :: "pages browser" where
  "broken_fields =
     scripted\<lparr>locator_count := (\<lambda>selector w.
        if selector = text_inputs then (Inl ''Timeout 30000ms exceeded'', w)
        else (Inr (if showing w selector then 1 else 0), w))\<rparr>"

definition broken_submit :: "pages browser" where
  "broken_submit =
     scripted\<lparr>human_click := (\<lambda>selector w.
        if selector = submit_button then (Inl ''element is not attached'', w) else (Inr (), tl w))\<rparr>"

definition no_chrome :: "pages browser" where
  "no_chrome = scripted\<lparr>launch := (\<lambda>w. (Inl ''chrome is not found'', w))\<rparr>"

definition offline :: "pages browser" where
  "offline = scripted\<lparr>goto := (\<lambda>url w. (Inl ''net::ERR_INTERNET_DISCONNECTED'', w))\<rparr>"

definition two_step_form :: pages where
  "two_step_form = [[''button.jobs-apply-button''], [next_button], [submit_button]]"

definition one_step_form :: pages where
  "one_step_form = [[''button.jobs-apply-button''], [submit_button]]"

definition bot_at :: "pages \<Rightarrow> bool \<Rightarrow> pages bot" where
  "bot_at w started = \<lparr>world = w, page = started, clicks = []\<rparr>"

section \<open>Properties of \<open>should_apply\<close>\<close>















section \<open>Properties of the Matcher\<close>

subsection \<open>What the Matcher leaves unchanged\<close>

lemma framesD:
  assumes "frames n m Q" "n \<le> next_addr h" "m h = (r, h')"
  shows "n \<le> next_addr h'" "a < n \<Longrightarrow> cells h' a = cells h a" "r = Inr v \<Longrightarrow> Q v"
  using assms unfolding frames_def by (auto split: sum.splits)

lemma frames_ret: "Q v \<Longrightarrow> frames n (ret v) Q"
  by (simp add: frames_def ret_def)

lemma frames_raise: "frames n (raise e) Q"
  by (simp add: frames_def raise_def)

lemma frames_lift: "(\<And>v. r = Inr v \<Longrightarrow> Q v) \<Longrightarrow> frames n (lift r) Q"
  by (simp add: frames_def lift_def split: sum.splits)

lemma frames_bnd:
  assumes "frames n m P" "\<And>v. P v \<Longrightarrow> frames n (f v) Q"
  shows "frames n (bnd m f) Q"
  unfolding frames_def
proof (intro allI impI)
  fix h :: store assume n: "n \<le> next_addr h"
  obtain r h1 where m: "m h = (r, h1)" by (cases "m h")
  note d = framesD[OF assms(1) n m]
  show "case bnd m f h of (r, h') \<Rightarrow>
           n \<le> next_addr h' \<and> (\<forall>a<n. cells h' a = cells h a) \<and>
           (case r of Inl e \<Rightarrow> True | Inr v \<Rightarrow> Q v)"
  proof (cases r)
    case (Inl e)
    then show ?thesis using m d by (simp add: bnd_def)
  next
    case (Inr v)
    obtain r2 h2 where f: "f v h1 = (r2, h2)" by (cases "f v h1")
    have "frames n (f v) Q" using assms(2) d(3) Inr by simp
    note e = framesD[OF this d(1) f]
    show ?thesis using m Inr f d e by (auto simp: bnd_def split: sum.splits)
  qed
qed

lemma frames_try:
  assumes "frames n m Q" "\<And>e. frames n (handler e) Q"
  shows "frames n (try_except m handler) Q"
  unfolding frames_def
proof (intro allI impI)
  fix h :: store assume n: "n \<le> next_addr h"
  obtain r h1 where m: "m h = (r, h1)" by (cases "m h")
  note d = framesD[OF assms(1) n m]
  show "case try_except m handler h of (r, h') \<Rightarrow>
           n \<le> next_addr h' \<and> (\<forall>a<n. cells h' a = cells h a) \<and>
           (case r of Inl e \<Rightarrow> True | Inr v \<Rightarrow> Q v)"
  proof (cases r)
    case (Inr v)
    then show ?thesis using m d by (simp add: try_except_def)
  next
    case (Inl e)
    obtain r2 h2 where f: "handler e h1 = (r2, h2)" by (cases "handler e h1")
    note e = framesD[OF assms(2) d(1) f]
    show ?thesis using m Inl f d e by (auto simp: try_except_def split: sum.splits)
  qed
qed

lemma frames_new_dict: "frames n (new_dict d) (\<lambda>a. n \<le> a)"
  by (simp add: frames_def new_dict_def)

lemma frames_dict_items: "frames n (dict_items a) (\<lambda>_. True)"
  by (simp add: frames_def dict_items_def)

lemma frames_dict_getitem: "frames n (dict_getitem a k) (\<lambda>_. True)"
  by (simp add: frames_def dict_getitem_def split: option.splits)

lemma frames_dict_contains: "frames n (dict_contains a k) (\<lambda>_. True)"
  by (simp add: frames_def dict_contains_def)

lemma frames_dict_set: "n \<le> a \<Longrightarrow> frames n (dict_set a k v) (\<lambda>_. True)"
  by (simp add: frames_def dict_set_def)

lemma frames_fallback: "frames n (fallback_selection ra) (\<lambda>a. n \<le> a)"
  unfolding fallback_selection_def
  by (intro frames_bnd[OF frames_dict_items] frames_bnd[OF frames_lift[where Q="\<lambda>_. True"]] frames_new_dict) simp

lemma frames_summarize: "n \<le> s \<Longrightarrow> frames n (summarize items s) (\<lambda>_. True)"
proof (induction items)
  case Nil
  then show ?case by (simp add: frames_ret)
next
  case (Cons it items)
  obtain filename data where it: "it = (filename, data)" by (cases it)
  show ?case unfolding it summarize.simps
    by (intro frames_bnd[OF frames_lift[where Q="\<lambda>_. True"]] frames_bnd[OF frames_dict_set] Cons) (simp_all add: Cons.prems)
qed

lemma frames_build: "frames n (build_matching_prompt jd ra jt) (\<lambda>_. True)"
  unfolding build_matching_prompt_def
  by (intro frames_bnd[OF frames_new_dict] frames_bnd[OF frames_dict_items] frames_bnd[OF frames_summarize] frames_ret) simp_all

lemma frames_check_required: "frames n (check_required fs res) (\<lambda>_. True)"
  by (induction fs) (auto intro!: frames_ret frames_raise frames_bnd[OF frames_dict_contains])

lemma frames_validate_selected: "n \<le> res \<Longrightarrow> frames n (validate_selected res ra) (\<lambda>_. True)"
  unfolding validate_selected_def
  by (intro frames_bnd[OF frames_dict_getitem] frames_bnd[OF frames_dict_items] frames_bnd[OF frames_lift[where Q="\<lambda>_. True"]])
     (auto intro!: frames_ret frames_raise frames_dict_set frames_bnd[OF frames_lift[where Q="\<lambda>_. True"]] split: option.splits)

lemma frames_normalize: "n \<le> res \<Longrightarrow> frames n (normalize_confidence res lib) (\<lambda>_. True)"
  unfolding normalize_confidence_def
  by (intro frames_bnd[OF frames_dict_getitem] frames_bnd[OF frames_lift[where Q="\<lambda>_. True"]] frames_dict_set) simp_all

lemma frames_match_score: "n \<le> res \<Longrightarrow> frames n (validate_match_score res lib) (\<lambda>_. True)"
  unfolding validate_match_score_def
  by (intro frames_bnd[OF frames_dict_getitem] frames_bnd[OF frames_lift[where Q="\<lambda>_. True"]] frames_dict_set) simp_all

lemma frames_parse_body: "frames n (parse_body lib t ra) (\<lambda>a. n \<le> a)"
  unfolding parse_body_def
  apply (intro frames_bnd[OF frames_lift[where Q="\<lambda>_. True"]])
    apply simp
   apply simp
  subgoal for jt decoded
    apply (cases decoded)
          apply (simp_all add: frames_raise)
    apply (intro frames_bnd[OF frames_new_dict] frames_bnd[OF frames_check_required]
        frames_bnd[OF frames_validate_selected] frames_bnd[OF frames_normalize]
        frames_bnd[OF frames_match_score] frames_ret)
        apply simp_all
    done
  done

lemma frames_parse: "frames n (parse_llm_response lib t ra) (\<lambda>a. n \<le> a)"
  unfolding parse_llm_response_def
  by (intro frames_try frames_parse_body frames_fallback)

lemma frames_report: "frames n (report_selection res) (\<lambda>_. True)"
  unfolding report_selection_def
  by (intro frames_bnd[OF frames_dict_getitem]) (auto intro!: frames_ret frames_raise frames_bnd[OF frames_dict_getitem])

lemma frames_select: "frames n (select_best_resume lib jd ra jt) (\<lambda>a. n \<le> a)"
  unfolding select_best_resume_def
  apply (intro frames_bnd[OF frames_dict_items])
  apply (auto intro!: frames_raise frames_bnd[OF frames_build] frames_try frames_fallback)
  apply (intro frames_bnd[OF frames_lift[where Q="\<lambda>_. True"]] frames_bnd[OF frames_parse] frames_bnd[OF frames_report] frames_ret)
    apply simp_all
  done

subsection \<open>Prompt building and fallback\<close>


lemma record_words_ok: "has_text data \<Longrightarrow> \<exists>ws. record_words data = Inr ws"
  by (cases data) (auto simp: record_words_def split: option.splits pyval.splits)

lemma summarize_ok:
  "list_all (\<lambda>(filename, data). has_text data) items \<Longrightarrow> \<exists>h'. summarize items s h = (Inr (), h')"
proof (induction items arbitrary: h)
  case Nil
  then show ?case by (simp add: ret_def)
next
  case (Cons it items)
  obtain filename data where it: "it = (filename, data)" by (cases it)
  from Cons.prems it obtain ws where ws: "record_words data = Inr ws"
    using record_words_ok by auto
  from Cons.prems have rest: "list_all (\<lambda>(filename, data). has_text data) items" by simp
  show ?case using Cons.IH[OF rest] ws
    by (simp add: it bnd_def lift_def dict_set_def)
qed

lemma build_ok:
  assumes "resume_records (cells h ra)" "ra < next_addr h"
  shows "\<exists>p h1. build_matching_prompt jd ra jt h = (Inr p, h1)"
proof -
  let ?h0 = "h\<lparr>cells := (cells h)(next_addr h := []), next_addr := Suc (next_addr h)\<rparr>"
  have items: "cells ?h0 ra = cells h ra" using assms(2) by simp
  obtain h2 where s: "summarize (cells h ra) (next_addr h) ?h0 = (Inr (), h2)"
    using summarize_ok[of "cells h ra" "next_addr h" ?h0] assms(1)
    by (auto simp: resume_records_def)
  show ?thesis
    unfolding build_matching_prompt_def
    using s items by (simp add: bnd_def new_dict_def dict_items_def ret_def)
qed

lemma fallback_ok:
  assumes "cells h ra = (first, data) # rest"
  shows "fallback_selection ra h =
           (Inr (next_addr h),
            h\<lparr>cells := (cells h)(next_addr h := fallback_result first), next_addr := Suc (next_addr h)\<rparr>)"
  using assms
  by (simp add: fallback_selection_def bnd_def dict_items_def lift_def py_index_def new_dict_def)

lemma fallback_valid: "valid_result (first # others) (fallback_result first)"
  by (simp add: valid_result_def fallback_result_def)

lemma check_required_state: "check_required fs res h = (r, h') \<Longrightarrow> h' = h"
  by (induction fs) (auto simp: ret_def raise_def bnd_def dict_contains_def split: if_splits)

lemma closest_match_in: "closest_match ks l = Some f \<Longrightarrow> f \<in> set ks"
  by (induction ks) (auto split: if_splits)

lemma validate_selected_post:
  assumes "validate_selected res ra h = (Inr u, h')" "res \<noteq> ra"
  shows "(\<exists>s. map_of (cells h' res) ''selected_resume'' = Some (PStr s) \<and> s \<in> set (map fst (cells h ra)))
         \<and> (\<forall>a. a \<noteq> res \<longrightarrow> cells h' a = cells h a) \<and> next_addr h' = next_addr h"
  using assms
  by (auto simp: validate_selected_def bnd_def dict_getitem_def dict_items_def lift_def ret_def raise_def
        dict_set_def key_in_resumes_def lower_of_def update_conv'
      dest: closest_match_in split: option.splits sum.splits pyval.splits if_splits)

lemma normalize_value:
  "py_max (Finite 0) (py_min (Finite 1) (if f_lt (Finite 1) x then div100 x else x)) =
     (case x of
        Finite r \<Rightarrow> Finite (max 0 (min 1 (if 1 < r then r / 100 else r)))
      | PosInf \<Rightarrow> Finite 1
      | NegInf \<Rightarrow> Finite 0
      | NaN \<Rightarrow> Finite 1)"
  by (cases x) (auto simp: py_max_def py_min_def max_def min_def)

lemma clamp_confidence:
  "\<exists>c. py_max (Finite 0) (py_min (Finite 1) (if f_lt (Finite 1) x then div100 x else x)) = Finite c
       \<and> 0 \<le> c \<and> c \<le> 1"
  unfolding normalize_value by (cases x) auto

lemma normalize_post:
  assumes "normalize_confidence res lib h = (Inr u, h')"
  shows "(\<exists>c. map_of (cells h' res) ''confidence'' = Some (PFloat (Finite c)) \<and> 0 \<le> c \<and> c \<le> 1)
         \<and> map_of (cells h' res) ''selected_resume'' = map_of (cells h res) ''selected_resume''
         \<and> (\<forall>a. a \<noteq> res \<longrightarrow> cells h' a = cells h a) \<and> next_addr h' = next_addr h"
proof -
  from assms obtain v x where
    v: "map_of (cells h res) ''confidence'' = Some v" and x: "py_float lib v = Inr x"
    and h': "h' = h\<lparr>cells := (cells h)(res := AList.update ''confidence''
        (PFloat (py_max (Finite 0) (py_min (Finite 1) (if f_lt (Finite 1) x then div100 x else x))))
        (cells h res))\<rparr>"
    by (auto simp: normalize_confidence_def bnd_def dict_getitem_def lift_def dict_set_def
        split: option.splits sum.splits)
  obtain c where c: "py_max (Finite 0) (py_min (Finite 1) (if f_lt (Finite 1) x then div100 x else x)) = Finite c"
      "0 \<le> c" "c \<le> 1"
    using clamp_confidence[of x] by blast
  show ?thesis using c by (simp add: h' update_conv')
qed

lemma match_score_post:
  assumes "validate_match_score res lib h = (Inr u, h')"
  shows "(\<exists>m. map_of (cells h' res) ''match_score'' = Some (PInt m) \<and> 0 \<le> m \<and> m \<le> 100)
         \<and> map_of (cells h' res) ''selected_resume'' = map_of (cells h res) ''selected_resume''
         \<and> map_of (cells h' res) ''confidence'' = map_of (cells h res) ''confidence''
         \<and> (\<forall>a. a \<noteq> res \<longrightarrow> cells h' a = cells h a) \<and> next_addr h' = next_addr h"
  using assms
  by (auto simp: validate_match_score_def bnd_def dict_getitem_def lift_def dict_set_def update_conv'
      split: option.splits sum.splits)

lemma bnd_InrE:
  assumes "bnd m f h = (Inr v, h')"
  obtains x h1 where "m h = (Inr x, h1)" "f x h1 = (Inr v, h')"
  using assms by (auto simp: bnd_def split: prod.splits sum.splits)

lemma bnd_lift:
  "bnd (lift r) f h = (case r of Inl e \<Rightarrow> (Inl e, h) | Inr v \<Rightarrow> f v h)"
  by (simp add: bnd_def lift_def split: sum.splits)

lemma bnd_new_dict:
  "bnd (new_dict d) f h =
     f (next_addr h) (h\<lparr>cells := (cells h)(next_addr h := d), next_addr := Suc (next_addr h)\<rparr>)"
  by (simp add: bnd_def new_dict_def)

lemma parse_body_steps:
  assumes "parse_body lib t ra h = (Inr res, h')"
  obtains jt d h1 h2 h3 where
    "strip_fences t = Inr jt" "json_loads lib (py_strip jt) = Inr (PDict d)"
    "res = next_addr h"
    "h1 = h\<lparr>cells := (cells h)(next_addr h := d), next_addr := Suc (next_addr h)\<rparr>"
    "check_required required_fields res h1 = (Inr (), h1)"
    "validate_selected res ra h1 = (Inr (), h2)"
    "normalize_confidence res lib h2 = (Inr (), h3)"
    "validate_match_score res lib h3 = (Inr (), h')"
proof -
  from assms obtain jt d where jt: "strip_fences t = Inr jt"
    and d: "json_loads lib (py_strip jt) = Inr (PDict d)"
    and r2: "bnd (new_dict d) (\<lambda>result.
           bnd (check_required required_fields result) (\<lambda>_.
           bnd (validate_selected result ra) (\<lambda>_.
           bnd (normalize_confidence result lib) (\<lambda>_.
           bnd (validate_match_score result lib) (\<lambda>_.
             ret result))))) h = (Inr res, h')"
    unfolding parse_body_def
    by (auto simp: bnd_lift raise_def split: sum.splits pyval.splits)
  define h1 where "h1 = h\<lparr>cells := (cells h)(next_addr h := d), next_addr := Suc (next_addr h)\<rparr>"
  from r2 have r3: "bnd (check_required required_fields (next_addr h)) (\<lambda>_.
           bnd (validate_selected (next_addr h) ra) (\<lambda>_.
           bnd (normalize_confidence (next_addr h) lib) (\<lambda>_.
           bnd (validate_match_score (next_addr h) lib) (\<lambda>_.
             ret (next_addr h))))) h1 = (Inr res, h')"
    by (simp add: bnd_new_dict h1_def)
  from r3 obtain u1 h1' where c: "check_required required_fields (next_addr h) h1 = (Inr u1, h1')"
    and r4: "bnd (validate_selected (next_addr h) ra) (\<lambda>_.
           bnd (normalize_confidence (next_addr h) lib) (\<lambda>_.
           bnd (validate_match_score (next_addr h) lib) (\<lambda>_.
             ret (next_addr h)))) h1' = (Inr res, h')"
    by (rule bnd_InrE)
  have h1': "h1' = h1" using check_required_state[OF c] .
  from r4 obtain u2 h2 where v: "validate_selected (next_addr h) ra h1 = (Inr u2, h2)"
    and r5: "bnd (normalize_confidence (next_addr h) lib) (\<lambda>_.
           bnd (validate_match_score (next_addr h) lib) (\<lambda>_.
             ret (next_addr h))) h2 = (Inr res, h')"
    unfolding h1' by (rule bnd_InrE)
  from r5 obtain u3 h3 where n: "normalize_confidence (next_addr h) lib h2 = (Inr u3, h3)"
    and r6: "bnd (validate_match_score (next_addr h) lib) (\<lambda>_. ret (next_addr h)) h3 = (Inr res, h')"
    by (rule bnd_InrE)
  from r6 obtain u4 where m: "validate_match_score (next_addr h) lib h3 = (Inr u4, h')"
    and res: "res = next_addr h"
    by (elim bnd_InrE) (auto simp: ret_def)
  show thesis
    using that[OF jt d res h1_def] c v n m unfolding h1' res by simp
qed

lemma parse_body_valid:
  assumes "parse_body lib t ra h = (Inr res, h')" "ra < next_addr h"
  shows "valid_result (map fst (cells h ra)) (cells h' res)"
proof -
  from assms(1) obtain jt d h1 h2 h3 where
    res: "res = next_addr h"
    and h1: "h1 = h\<lparr>cells := (cells h)(next_addr h := d), next_addr := Suc (next_addr h)\<rparr>"
    and v: "validate_selected res ra h1 = (Inr (), h2)"
    and n: "normalize_confidence res lib h2 = (Inr (), h3)"
    and m: "validate_match_score res lib h3 = (Inr (), h')"
    by (rule parse_body_steps)
  have ne: "res \<noteq> ra" using res assms(2) by simp
  have ra1: "cells h1 ra = cells h ra" using h1 ne res by simp
  from validate_selected_post[OF v ne] ra1 obtain s where
    s: "map_of (cells h2 res) ''selected_resume'' = Some (PStr s)" "s \<in> set (map fst (cells h ra))"
    by auto
  from normalize_post[OF n] obtain c where
    c: "map_of (cells h3 res) ''confidence'' = Some (PFloat (Finite c))" "0 \<le> c" "c \<le> 1"
    and s3: "map_of (cells h3 res) ''selected_resume'' = map_of (cells h2 res) ''selected_resume''"
    by auto
  from match_score_post[OF m] obtain k where
    k: "map_of (cells h' res) ''match_score'' = Some (PInt k)" "0 \<le> k" "k \<le> 100"
    and s4: "map_of (cells h' res) ''selected_resume'' = map_of (cells h3 res) ''selected_resume''"
    and c4: "map_of (cells h' res) ''confidence'' = map_of (cells h3 res) ''confidence''"
    by auto
  show ?thesis
    unfolding valid_result_def using s c k s3 s4 c4 by simp
qed

lemma parse_llm_response_cases:
  assumes ra: "ra < next_addr h" and items: "cells h ra = (first, data) # rest"
  obtains (parsed) res h' where "parse_body lib t ra h = (Inr res, h')"
      "parse_llm_response lib t ra h = (Inr res, h')"
      "valid_result (map fst (cells h ra)) (cells h' res)"
  | (fallback) e h1 where "parse_body lib t ra h = (Inl e, h1)"
      "parse_llm_response lib t ra h =
         (Inr (next_addr h1),
          h1\<lparr>cells := (cells h1)(next_addr h1 := fallback_result first), next_addr := Suc (next_addr h1)\<rparr>)"
proof -
  obtain r h1 where pb: "parse_body lib t ra h = (r, h1)" by (cases "parse_body lib t ra h")
  show thesis
  proof (cases r)
    case (Inr res)
    have "parse_llm_response lib t ra h = (Inr res, h1)"
      using pb Inr by (simp add: parse_llm_response_def try_except_def)
    moreover have "valid_result (map fst (cells h ra)) (cells h1 res)"
      using parse_body_valid[OF _ ra] pb Inr by simp
    ultimately show ?thesis using parsed pb Inr by simp
  next
    case (Inl e)
    have le: "next_addr h \<le> next_addr h" by simp
    note d = framesD[OF frames_parse_body le pb]
    have "cells h1 ra = (first, data) # rest" using d(2)[OF ra] items by simp
    then have "fallback_selection ra h1 =
           (Inr (next_addr h1),
            h1\<lparr>cells := (cells h1)(next_addr h1 := fallback_result first), next_addr := Suc (next_addr h1)\<rparr>)"
      by (rule fallback_ok)
    then have "parse_llm_response lib t ra h =
         (Inr (next_addr h1),
          h1\<lparr>cells := (cells h1)(next_addr h1 := fallback_result first), next_addr := Suc (next_addr h1)\<rparr>)"
      using pb Inl by (simp add: parse_llm_response_def try_except_def)
    then show ?thesis using fallback pb Inl by simp
  qed
qed

lemma report_ok:
  assumes "valid_result ks (cells h res)"
  shows "report_selection res h = (Inr (), h)"
  using assms
  by (auto simp: valid_result_def report_selection_def bnd_def dict_getitem_def ret_def
      split: option.splits pyval.splits pyfloat.splits)

lemma select_unfold:
  assumes "cells h ra \<noteq> []" "build_matching_prompt jd ra jt h = (Inr p, h1)"
  shows "select_best_resume lib jd ra jt h =
           try_except
             (bnd (lift (generate_content lib p)) (\<lambda>text.
              bnd (parse_llm_response lib (py_strip text) ra) (\<lambda>result.
              bnd (report_selection result) (\<lambda>_.
                ret result))))
             (\<lambda>e. fallback_selection ra) h1"
  using assms by (simp add: select_best_resume_def bnd_def dict_items_def)

lemma build_frame:
  assumes "build_matching_prompt jd ra jt h = (r, h1)" "ra < next_addr h"
  shows "cells h1 ra = cells h ra" "ra < next_addr h1"
proof -
  have le: "next_addr h \<le> next_addr h" by simp
  note d = framesD[OF frames_build le assms(1)]
  show "cells h1 ra = cells h ra" using d(2)[OF assms(2)] .
  show "ra < next_addr h1" using d(1) assms(2) by simp
qed

lemma select_model_fault:
  assumes ra: "ra < next_addr h" and items: "cells h ra = (first, data) # rest"
    and build: "build_matching_prompt jd ra jt h = (Inr p, h1)"
    and gen: "generate_content lib p = Inl e"
  shows "select_best_resume lib jd ra jt h =
           (Inr (next_addr h1),
            h1\<lparr>cells := (cells h1)(next_addr h1 := fallback_result first), next_addr := Suc (next_addr h1)\<rparr>)"
proof -
  have ne: "cells h ra \<noteq> []" using items by simp
  have "cells h1 ra = (first, data) # rest" using build_frame(1)[OF build ra] items by simp
  then have "fallback_selection ra h1 =
           (Inr (next_addr h1),
            h1\<lparr>cells := (cells h1)(next_addr h1 := fallback_result first), next_addr := Suc (next_addr h1)\<rparr>)"
    by (rule fallback_ok)
  then show ?thesis
    unfolding select_unfold[OF ne build] using gen by (simp add: try_except_def bnd_lift)
qed

lemma select_model_answer:
  assumes ra: "ra < next_addr h" and items: "cells h ra = (first, data) # rest"
    and build: "build_matching_prompt jd ra jt h = (Inr p, h1)"
    and gen: "generate_content lib p = Inr text"
    and parse: "parse_llm_response lib (py_strip text) ra h1 = (Inr res, h2)"
    and valid: "valid_result ks (cells h2 res)"
  shows "select_best_resume lib jd ra jt h = (Inr res, h2)"
proof -
  have ne: "cells h ra \<noteq> []" using items by simp
  show ?thesis
    unfolding select_unfold[OF ne build] using gen parse report_ok[OF valid]
    by (simp add: try_except_def bnd_def lift_def ret_def)
qed

lemma valid_resultD:
  assumes "valid_result ks d"
  shows "\<exists>sel c m. map_of d ''selected_resume'' = Some (PStr sel) \<and> sel \<in> set ks
           \<and> map_of d ''confidence'' = Some (PFloat (Finite c)) \<and> 0 \<le> c \<and> c \<le> 1
           \<and> map_of d ''match_score'' = Some (PInt m) \<and> 0 \<le> m \<and> m \<le> 100"
  using assms
  by (auto simp: valid_result_def split: option.splits pyval.splits pyfloat.splits)

lemma select_valid:
  assumes ra: "ra < next_addr h" and ne: "cells h ra \<noteq> []" and rec: "resume_records (cells h ra)"
  shows "\<exists>res h'. select_best_resume lib jd ra jt h = (Inr res, h')
           \<and> valid_result (map fst (cells h ra)) (cells h' res)"
proof -
  obtain first data rest where items: "cells h ra = (first, data) # rest"
    using ne by (cases "cells h ra") auto
  obtain p h1 where build: "build_matching_prompt jd ra jt h = (Inr p, h1)"
    using build_ok[OF rec ra] by blast
  note bf = build_frame[OF build ra]
  have items1: "cells h1 ra = (first, data) # rest" using bf(1) items by simp
  show ?thesis
  proof (cases "generate_content lib p")
    case (Inl e)
    show ?thesis
      unfolding select_model_fault[OF ra items build Inl]
      using fallback_valid[of first "map fst rest"] by (simp add: items)
  next
    case (Inr reply)
    show ?thesis
    proof (rule parse_llm_response_cases[OF bf(2) items1, of lib "py_strip reply"])
      fix res h'
      assume parsed: "parse_llm_response lib (py_strip reply) ra h1 = (Inr res, h')"
        "valid_result (map fst (cells h1 ra)) (cells h' res)"
      have v: "valid_result (map fst (cells h ra)) (cells h' res)"
        using parsed(2) bf(1) by simp
      show ?thesis
        using select_model_answer[OF ra items build Inr parsed(1) v] v by simp
    next
      fix e h2
      assume fallback: "parse_body lib (py_strip reply) ra h1 = (Inl e, h2)"
        "parse_llm_response lib (py_strip reply) ra h1 =
         (Inr (next_addr h2),
          h2\<lparr>cells := (cells h2)(next_addr h2 := fallback_result first), next_addr := Suc (next_addr h2)\<rparr>)"
      have v: "valid_result (map fst (cells h ra))
                 (cells (h2\<lparr>cells := (cells h2)(next_addr h2 := fallback_result first),
                               next_addr := Suc (next_addr h2)\<rparr>) (next_addr h2))"
        using fallback_valid[of first "map fst rest"] by (simp add: items)
      show ?thesis
        using select_model_answer[OF ra items build Inr fallback(2) v] v by simp
    qed
  qed
qed

lemma validate_selected_keeps:
  assumes "validate_selected res ra h = (Inr u, h')" "k \<noteq> ''selected_resume''"
  shows "map_of (cells h' res) k = map_of (cells h res) k"
  using assms
  by (auto simp: validate_selected_def bnd_def dict_getitem_def dict_items_def lift_def ret_def raise_def
        dict_set_def update_conv'
      split: option.splits sum.splits if_splits)

lemma normalize_exact:
  assumes "normalize_confidence res lib h = (Inr u, h')"
    "map_of (cells h res) ''confidence'' = Some v" "py_float lib v = Inr x"
  shows "map_of (cells h' res) ''confidence'' =
           Some (PFloat (py_max (Finite 0) (py_min (Finite 1) (if f_lt (Finite 1) x then div100 x else x))))"
  using assms
  by (auto simp: normalize_confidence_def bnd_def dict_getitem_def lift_def dict_set_def update_conv'
      split: option.splits sum.splits)

lemma parse_body_accepts:
  assumes "ra < next_addr h"
    and "strip_fences t = Inr jt"
    and "json_loads lib (py_strip jt) = Inr (PDict d)"
    and "map_of d ''selected_resume'' = Some (PStr sel)" and "sel \<in> set (map fst (cells h ra))"
    and "map_of d ''confidence'' = Some reported" and "py_float lib reported = Inr x"
    and "map_of d ''reasoning'' = Some why"
    and "map_of d ''match_score'' = Some score" and "py_int lib score = Inr n"
  shows "\<exists>h'. parse_body lib t ra h = (Inr (next_addr h), h')"
proof -
  have ne: "next_addr h \<noteq> ra" using assms(1) by simp
  show ?thesis
    using assms(2-) ne
    by (simp add: parse_body_def bnd_lift new_dict_def required_fields_def bnd_def dict_contains_def
        ret_def validate_selected_def dict_getitem_def dict_items_def lift_def key_in_resumes_def
        normalize_confidence_def dict_set_def validate_match_score_def update_conv')
qed

lemma demo_store_facts:
  "(0::nat) < next_addr demo_store"
  "cells demo_store 0 = (''a.pdf'', PDict [(''text'', PStr ''Backend engineer: Python, PostgreSQL''),
                         (''filename'', PStr ''a.pdf'')]) #
      [(''b.pdf'', PDict [(''text'', PStr ''Frontend developer: React, TypeScript''),
                         (''filename'', PStr ''b.pdf'')])]"
  "resume_records (cells demo_store 0)"
  by (simp_all add: demo_store_def demo_resumes_def resume_records_def)





subsection \<open>The claims about the Matcher\<close>

text \<open>
  Claim C3.  For a non-empty mapping of resume records and every behaviour of the model
  (an answer of any content, or a fault), \<open>select_best_resume\<close> returns a result whose
  \<open>selected_resume\<close> is a key of the mapping, whose \<open>confidence\<close> is a finite float in
  [0, 1] and whose \<open>match_score\<close> is an int in [0, 100].
\<close>

theorem select_best_resume_valid:
  assumes "resumes < next_addr h" and "cells h resumes \<noteq> []" and "resume_records (cells h resumes)"
  shows "\<exists>result h' sel c m.
           select_best_resume lib job_description resumes job_title h = (Inr result, h')
           \<and> map_of (cells h' result) ''selected_resume'' = Some (PStr sel)
           \<and> sel \<in> set (map fst (cells h resumes))
           \<and> map_of (cells h' result) ''confidence'' = Some (PFloat (Finite c)) \<and> 0 \<le> c \<and> c \<le> 1
           \<and> map_of (cells h' result) ''match_score'' = Some (PInt m) \<and> 0 \<le> m \<and> m \<le> 100"
proof -
  from select_valid[OF assms] obtain res h' where
    run: "select_best_resume lib job_description resumes job_title h = (Inr res, h')"
    and v: "valid_result (map fst (cells h resumes)) (cells h' res)"
    by blast
  from valid_resultD[OF v] run show ?thesis by blast
qed

theorem select_best_resume_valid_witness:
  "\<exists>result h' sel c m.
      select_best_resume (scripted_model (Inr percent_reply)) ''Senior React engineer'' 0
        (Some ''Frontend'') demo_store = (Inr result, h')
      \<and> map_of (cells h' result) ''selected_resume'' = Some (PStr sel)
      \<and> sel \<in> set [''a.pdf'', ''b.pdf'']
      \<and> map_of (cells h' result) ''confidence'' = Some (PFloat (Finite c)) \<and> 0 \<le> c \<and> c \<le> 1
      \<and> map_of (cells h' result) ''match_score'' = Some (PInt m) \<and> 0 \<le> m \<and> m \<le> 100"
proof -
  have ne: "cells demo_store 0 \<noteq> []" by (simp add: demo_store_facts(2))
  have keys: "map fst (cells demo_store 0) = [''a.pdf'', ''b.pdf'']"
    by (simp add: demo_store_facts(2))
  from select_best_resume_valid[OF demo_store_facts(1) ne demo_store_facts(3),
      of "scripted_model (Inr percent_reply)" "''Senior React engineer''" "Some ''Frontend''"]
  show ?thesis unfolding keys .
qed

text \<open>
  Claim C4.  When the model call raises, or the body of \<open>_parse_llm_response\<close> raises on
  the model's reply, \<open>select_best_resume\<close> returns the fallback dict: the first key of the
  mapping in iteration order, confidence 0.5, match score 50 and the fallback reasoning.
\<close>

theorem select_best_resume_fallback:
  assumes "resumes < next_addr h" and "cells h resumes = (first, data) # rest"
    and "build_matching_prompt job_description resumes job_title h = (Inr prompt, h1)"
    and "generate_content lib prompt = Inl e \<or>
         (\<exists>text e' h2. generate_content lib prompt = Inr text \<and>
            parse_body lib (py_strip text) resumes h1 = (Inl e', h2))"
  shows "\<exists>result h'.
           select_best_resume lib job_description resumes job_title h = (Inr result, h')
           \<and> cells h' result =
               [(''selected_resume'', PStr first),
                (''confidence'', PFloat (Finite 0.5)),
                (''reasoning'', PStr ''Fallback selection due to LLM error''),
                (''match_score'', PInt 50),
                (''key_matches'', PList [])]"
proof -
  note bf = build_frame[OF assms(3) assms(1)]
  have items1: "cells h1 resumes = (first, data) # rest" using bf(1) assms(2) by simp
  from assms(4) show ?thesis
  proof
    assume "generate_content lib prompt = Inl e"
    from select_model_fault[OF assms(1,2,3) this] show ?thesis
      by (simp add: fallback_result_def)
  next
    assume "\<exists>text e' h2. generate_content lib prompt = Inr text \<and>
            parse_body lib (py_strip text) resumes h1 = (Inl e', h2)"
    then obtain reply e' h2 where gen: "generate_content lib prompt = Inr reply"
      and pb: "parse_body lib (py_strip reply) resumes h1 = (Inl e', h2)" by blast
    show ?thesis
    proof (rule parse_llm_response_cases[OF bf(2) items1, of lib "py_strip reply"])
      fix res h'
      assume "parse_body lib (py_strip reply) resumes h1 = (Inr res, h')"
      then show ?thesis using pb by simp
    next
      fix e h3
      assume fallback: "parse_body lib (py_strip reply) resumes h1 = (Inl e, h3)"
        "parse_llm_response lib (py_strip reply) resumes h1 =
         (Inr (next_addr h3),
          h3\<lparr>cells := (cells h3)(next_addr h3 := fallback_result first), next_addr := Suc (next_addr h3)\<rparr>)"
      have v: "valid_result (first # map fst rest)
                 (cells (h3\<lparr>cells := (cells h3)(next_addr h3 := fallback_result first),
                               next_addr := Suc (next_addr h3)\<rparr>) (next_addr h3))"
        using fallback_valid[of first "map fst rest"] by simp
      from select_model_answer[OF assms(1,2,3) gen fallback(2) v] show ?thesis
        by (simp add: fallback_result_def)
    qed
  qed
qed

theorem select_best_resume_fallback_witness:
  "(\<exists>result h'.
      select_best_resume (scripted_model (Inl ''503 model unavailable'')) ''Senior React engineer'' 0
        None demo_store = (Inr result, h')
      \<and> map_of (cells h' result) ''selected_resume'' = Some (PStr ''a.pdf'')
      \<and> map_of (cells h' result) ''confidence'' = Some (PFloat (Finite 0.5))
      \<and> map_of (cells h' result) ''match_score'' = Some (PInt 50))
   \<and> (\<exists>result h'.
      select_best_resume (scripted_model (Inr ''I would pick b.pdf'')) ''Senior React engineer'' 0
        None demo_store = (Inr result, h')
      \<and> map_of (cells h' result) ''selected_resume'' = Some (PStr ''a.pdf'')
      \<and> map_of (cells h' result) ''confidence'' = Some (PFloat (Finite 0.5))
      \<and> map_of (cells h' result) ''match_score'' = Some (PInt 50))"
proof -
  obtain p h1 where build:
    "build_matching_prompt ''Senior React engineer'' 0 None demo_store = (Inr p, h1)"
    using build_ok[OF demo_store_facts(3) demo_store_facts(1)] by blast
  have fault: "generate_content (scripted_model (Inl ''503 model unavailable'')) p
                 = Inl ''503 model unavailable''"
    by (simp add: scripted_model_def)
  have sf: "strip_fences (py_strip ''I would pick b.pdf'') = Inr ''I would pick b.pdf''"
    by code_simp
  have jl: "json_loads (scripted_model (Inr ''I would pick b.pdf'')) (py_strip ''I would pick b.pdf'')
              = Inl ''Expecting value: line 1 column 1 (char 0)''"
    by code_simp
  have chat: "generate_content (scripted_model (Inr ''I would pick b.pdf'')) p = Inr ''I would pick b.pdf''
       \<and> parse_body (scripted_model (Inr ''I would pick b.pdf'')) (py_strip ''I would pick b.pdf'') 0 h1
             = (Inl ''Expecting value: line 1 column 1 (char 0)'', h1)"
    using sf jl by (simp add: scripted_model_def parse_body_def bnd_lift)
  from select_best_resume_fallback[OF demo_store_facts(1) demo_store_facts(2) build,
      of "scripted_model (Inl ''503 model unavailable'')" "''503 model unavailable''"] fault
  have a: "\<exists>result h'.
      select_best_resume (scripted_model (Inl ''503 model unavailable'')) ''Senior React engineer'' 0
        None demo_store = (Inr result, h')
      \<and> map_of (cells h' result) ''selected_resume'' = Some (PStr ''a.pdf'')
      \<and> map_of (cells h' result) ''confidence'' = Some (PFloat (Finite 0.5))
      \<and> map_of (cells h' result) ''match_score'' = Some (PInt 50)"
    by auto
  from select_best_resume_fallback[OF demo_store_facts(1) demo_store_facts(2) build,
      of "scripted_model (Inr ''I would pick b.pdf'')" "[]"] chat
  have b: "\<exists>result h'.
      select_best_resume (scripted_model (Inr ''I would pick b.pdf'')) ''Senior React engineer'' 0
        None demo_store = (Inr result, h')
      \<and> map_of (cells h' result) ''selected_resume'' = Some (PStr ''a.pdf'')
      \<and> map_of (cells h' result) ''confidence'' = Some (PFloat (Finite 0.5))
      \<and> map_of (cells h' result) ''match_score'' = Some (PInt 50)"
    by auto
  show ?thesis using a b by (rule conjI)
qed

text \<open>
  Claim C6.  On a well-formed response, \<open>_parse_llm_response\<close> stores as confidence the
  reported value, divided by 100 when it is above 1.0, clamped to [0, 1]; a reported
  confidence of 85 is stored as 0.85.
\<close>

theorem confidence_normalized:
  assumes "resumes < next_addr h"
    and "strip_fences response_text = Inr json_text"
    and "json_loads lib (py_strip json_text) = Inr (PDict d)"
    and "map_of d ''selected_resume'' = Some (PStr sel)" and "sel \<in> set (map fst (cells h resumes))"
    and "map_of d ''confidence'' = Some reported" and "py_float lib reported = Inr x"
    and "map_of d ''reasoning'' = Some why"
    and "map_of d ''match_score'' = Some score" and "py_int lib score = Inr n"
  shows "\<exists>result h'.
           parse_llm_response lib response_text resumes h = (Inr result, h')
           \<and> map_of (cells h' result) ''confidence'' =
               Some (PFloat (py_max (Finite 0) (py_min (Finite 1)
                       (if f_lt (Finite 1) x then div100 x else x))))
           \<and> (\<forall>r. x = Finite r \<longrightarrow>
                 map_of (cells h' result) ''confidence'' =
                   Some (PFloat (Finite (max 0 (min 1 (if 1 < r then r / 100 else r))))))
           \<and> (reported = PInt 85 \<longrightarrow>
                 map_of (cells h' result) ''confidence'' = Some (PFloat (Finite 0.85)))"
proof -
  from parse_body_accepts[OF assms] obtain h' where
    pb: "parse_body lib response_text resumes h = (Inr (next_addr h), h')" by blast
  have run: "parse_llm_response lib response_text resumes h = (Inr (next_addr h), h')"
    using pb by (simp add: parse_llm_response_def try_except_def)
  from pb obtain jt d' h1 h2 h3 where
    jt: "strip_fences response_text = Inr jt"
    and d': "json_loads lib (py_strip jt) = Inr (PDict d')"
    and h1: "h1 = h\<lparr>cells := (cells h)(next_addr h := d'), next_addr := Suc (next_addr h)\<rparr>"
    and v: "validate_selected (next_addr h) resumes h1 = (Inr (), h2)"
    and nc: "normalize_confidence (next_addr h) lib h2 = (Inr (), h3)"
    and m: "validate_match_score (next_addr h) lib h3 = (Inr (), h')"
    by (rule parse_body_steps)
  have dd: "d' = d" using jt d' assms(2,3) by simp
  have c1: "map_of (cells h1 (next_addr h)) ''confidence'' = Some reported"
    using h1 dd assms(6) by simp
  have c2: "map_of (cells h2 (next_addr h)) ''confidence'' = Some reported"
    using validate_selected_keeps[OF v, of "''confidence''"] c1 by simp
  have c3: "map_of (cells h3 (next_addr h)) ''confidence'' =
           Some (PFloat (py_max (Finite 0) (py_min (Finite 1) (if f_lt (Finite 1) x then div100 x else x))))"
    using normalize_exact[OF nc c2 assms(7)] .
  have c4: "map_of (cells h' (next_addr h)) ''confidence'' =
           Some (PFloat (py_max (Finite 0) (py_min (Finite 1) (if f_lt (Finite 1) x then div100 x else x))))"
    using match_score_post[OF m] c3 by simp
  have real: "map_of (cells h' (next_addr h)) ''confidence'' =
                   Some (PFloat (Finite (max 0 (min 1 (if 1 < r then r / 100 else r)))))"
    if "x = Finite r" for r
    using c4 unfolding normalize_value that by simp
  have pct: "map_of (cells h' (next_addr h)) ''confidence'' = Some (PFloat (Finite 0.85))"
    if "reported = PInt 85"
  proof -
    have "x = Finite 85" using assms(7) that by (simp add: py_float_def)
    from real[OF this] show ?thesis by simp
  qed
  show ?thesis using run c4 real pct by blast
qed

theorem confidence_normalized_witness:
  "\<exists>result h'.
      parse_llm_response (scripted_model (Inr percent_reply)) percent_reply 0 demo_store = (Inr result, h')
      \<and> map_of (cells h' result) ''confidence'' = Some (PFloat (Finite 0.85))"
proof -
  have 1: "(0::nat) < next_addr demo_store" by (simp add: demo_store_def)
  have 2: "strip_fences percent_reply = Inr ('' '' @ percent_json @ '' '')"
    by code_simp
  have 3: "json_loads (scripted_model (Inr percent_reply)) (py_strip ('' '' @ percent_json @ '' ''))
             = Inr (PDict percent_dict)"
    by code_simp
  have 4: "map_of percent_dict ''selected_resume'' = Some (PStr ''b.pdf'')"
    by (simp add: percent_dict_def)
  have 5: "''b.pdf'' \<in> set (map fst (cells demo_store 0))"
    by (simp add: demo_store_def demo_resumes_def)
  have 6: "map_of percent_dict ''confidence'' = Some (PInt 85)"
    by (simp add: percent_dict_def)
  have 7: "py_float (scripted_model (Inr percent_reply)) (PInt 85) = Inr (Finite 85)"
    by (simp add: py_float_def)
  have 8: "map_of percent_dict ''reasoning'' = Some (PStr ''React and TypeScript'')"
    by (simp add: percent_dict_def)
  have 9: "map_of percent_dict ''match_score'' = Some (PInt 90)"
    by (simp add: percent_dict_def)
  have 10: "py_int (scripted_model (Inr percent_reply)) (PInt 90) = Inr 90"
    by (simp add: py_int_def)
  from confidence_normalized[OF 1 2 3 4 5 6 7 8 9 10] show ?thesis by blast
qed




text \<open>
  Claim C9.  \<open>select_best_resume\<close>, and each of \<open>_build_matching_prompt\<close>,
  \<open>_parse_llm_response\<close> and \<open>_fallback_selection\<close> on its own, leaves the dict of the
  resume mapping as it was; the dict that \<open>select_best_resume\<close> returns is another object.
\<close>

theorem select_best_resume_frame:
  assumes "resumes < next_addr h"
  shows "cells (snd (select_best_resume lib job_description resumes job_title h)) resumes = cells h resumes
       \<and> cells (snd (build_matching_prompt job_description resumes job_title h)) resumes = cells h resumes
       \<and> cells (snd (parse_llm_response lib response_text resumes h)) resumes = cells h resumes
       \<and> cells (snd (fallback_selection resumes h)) resumes = cells h resumes
       \<and> (\<forall>result h'. select_best_resume lib job_description resumes job_title h = (Inr result, h')
            \<longrightarrow> result \<noteq> resumes)"
proof -
  have le: "next_addr h \<le> next_addr h" by simp
  have 1: "cells (snd (select_best_resume lib job_description resumes job_title h)) resumes = cells h resumes"
    using framesD(2)[OF frames_select le _ assms, of lib job_description resumes job_title]
    by (cases "select_best_resume lib job_description resumes job_title h") simp
  have 2: "cells (snd (build_matching_prompt job_description resumes job_title h)) resumes = cells h resumes"
    using framesD(2)[OF frames_build le _ assms, of job_description resumes job_title]
    by (cases "build_matching_prompt job_description resumes job_title h") simp
  have 3: "cells (snd (parse_llm_response lib response_text resumes h)) resumes = cells h resumes"
    using framesD(2)[OF frames_parse le _ assms, of lib response_text resumes]
    by (cases "parse_llm_response lib response_text resumes h") simp
  have 4: "cells (snd (fallback_selection resumes h)) resumes = cells h resumes"
    using framesD(2)[OF frames_fallback le _ assms, of resumes]
    by (cases "fallback_selection resumes h") simp
  have 5: "result \<noteq> resumes"
    if "select_best_resume lib job_description resumes job_title h = (Inr result, h')" for result h'
    using framesD(3)[OF frames_select le that] assms by simp
  show ?thesis using 1 2 3 4 5 by blast
qed

theorem select_best_resume_frame_witness:
  "cells (snd (select_best_resume (scripted_model (Inr percent_reply)) ''Senior React engineer'' 0
        None demo_store)) 0 = demo_resumes
   \<and> cells (snd (parse_llm_response (scripted_model (Inr percent_reply)) percent_reply 0 demo_store)) 0
       = demo_resumes"
  using select_best_resume_frame[OF demo_store_facts(1),
      of "scripted_model (Inr percent_reply)" "''Senior React engineer''" None percent_reply]
  by (simp add: demo_store_def)

section \<open>Properties of the Applicator\<close>

subsection \<open>Clicks and returned values\<close>

lemma step_outcome_simps:
  "step_outcome ''Success''" "step_outcome (''Failed (Submit error: '' @ e @ '')'')"
  "step_outcome ''Failed (Form Error)''" "step_outcome ''Failed (Stuck)''"
  "step_outcome ''Failed (Too many steps)''"
  unfolding step_outcome_def by blast+

lemma run_withinD:
  assumes "run_within C m Q" "m s = (r, s')"
  shows "page s' = page s" "\<exists>cs. clicks s' = clicks s @ cs \<and> set cs \<subseteq> C" "r = Inr v \<Longrightarrow> Q v"
  using assms unfolding run_within_def by (auto split: prod.splits sum.splits dest!: spec[where x=s])

lemma rw_ret: "Q v \<Longrightarrow> run_within C (ret v) Q"
  by (simp add: run_within_def ret_def)

lemma rw_raise: "run_within C (raise e) Q"
  by (simp add: run_within_def raise_def)

lemma rw_on_world: "run_within C (on_world act) (\<lambda>_. True)"
  by (simp add: run_within_def on_world_def split: prod.splits)

lemma rw_click: "sel \<in> C \<Longrightarrow> run_within C (click b sel) (\<lambda>_. True)"
  by (simp add: run_within_def click_def on_world_def split: prod.splits)

lemma rw_bnd:
  assumes "run_within C m P" "\<And>v. P v \<Longrightarrow> run_within C (f v) Q"
  shows "run_within C (bnd m f) Q"
  unfolding run_within_def
proof
  fix s :: "'a bot"
  obtain r s1 where m: "m s = (r, s1)" by (cases "m s")
  note d = run_withinD[OF assms(1) m]
  show "case bnd m f s of (r, s') \<Rightarrow>
        page s' = page s \<and> (\<exists>cs. clicks s' = clicks s @ cs \<and> set cs \<subseteq> C) \<and>
        (case r of Inl e \<Rightarrow> True | Inr v \<Rightarrow> Q v)"
  proof (cases r)
    case (Inl e)
    then show ?thesis using m d by (simp add: bnd_def)
  next
    case (Inr v)
    obtain r2 s2 where f: "f v s1 = (r2, s2)" by (cases "f v s1")
    have "run_within C (f v) Q" using assms(2) d(3) Inr by simp
    note e = run_withinD[OF this f]
    from d(2) e(2) obtain cs cs' where "clicks s1 = clicks s @ cs" "set cs \<subseteq> C"
      "clicks s2 = clicks s1 @ cs'" "set cs' \<subseteq> C" by blast
    then have "clicks s2 = clicks s @ (cs @ cs') \<and> set (cs @ cs') \<subseteq> C" by simp
    then have "\<exists>cs. clicks s2 = clicks s @ cs \<and> set cs \<subseteq> C" by blast
    then show ?thesis using m Inr f d(1) e(1) e(3) by (auto simp: bnd_def split: sum.splits)
  qed
qed

lemma rw_try:
  assumes "run_within C m Q" "\<And>e. run_within C (handler e) Q"
  shows "run_within C (try_except m handler) Q"
  unfolding run_within_def
proof
  fix s :: "'a bot"
  obtain r s1 where m: "m s = (r, s1)" by (cases "m s")
  note d = run_withinD[OF assms(1) m]
  show "case try_except m handler s of (r, s') \<Rightarrow>
        page s' = page s \<and> (\<exists>cs. clicks s' = clicks s @ cs \<and> set cs \<subseteq> C) \<and>
        (case r of Inl e \<Rightarrow> True | Inr v \<Rightarrow> Q v)"
  proof (cases r)
    case (Inr v)
    then show ?thesis using m d by (simp add: try_except_def)
  next
    case (Inl e)
    obtain r2 s2 where f: "handler e s1 = (r2, s2)" by (cases "handler e s1")
    note e = run_withinD[OF assms(2) f]
    from d(2) e(2) obtain cs cs' where "clicks s1 = clicks s @ cs" "set cs \<subseteq> C"
      "clicks s2 = clicks s1 @ cs'" "set cs' \<subseteq> C" by blast
    then have "clicks s2 = clicks s @ (cs @ cs') \<and> set (cs @ cs') \<subseteq> C" by simp
    then have "\<exists>cs. clicks s2 = clicks s @ cs \<and> set cs \<subseteq> C" by blast
    then show ?thesis using m Inl f d(1) e(1) e(3) by (auto simp: try_except_def split: sum.splits)
  qed
qed

lemma rw_weaken: "run_within C m P \<Longrightarrow> (\<And>v. P v \<Longrightarrow> Q v) \<Longrightarrow> run_within C m Q"
  unfolding run_within_def by (fastforce split: prod.splits sum.splits)

lemma rw_if:
  "run_within C m Q \<Longrightarrow> run_within C m' Q \<Longrightarrow> run_within C (if c then m else m') Q"
  by simp

lemma rw_get_label: "run_within C (get_label b selector i) (\<lambda>_. True)"
  unfolding get_label_def
proof (rule rw_bnd[where P="\<lambda>_. True"])
  have look: "run_within C
       (case id_val of
          None \<Rightarrow> ret None
        | Some v \<Rightarrow>
            if v \<noteq> [] then
              bnd (on_world (inner_text b (''label[for='' @ [CHR 0x27] @ v @ [CHR 0x27] @ '']'')))
                (\<lambda>label. ret (Some label))
            else ret None) (\<lambda>_. True)" for id_val
  proof (cases id_val)
    case None
    then show ?thesis by (simp add: rw_ret)
  next
    case (Some v)
    have "run_within C
       (bnd (on_world (inner_text b (''label[for='' @ [CHR 0x27] @ v @ [CHR 0x27] @ '']'')))
          (\<lambda>label. ret (Some label))) (\<lambda>_. True)"
      by (intro rw_bnd[OF rw_on_world] rw_ret) simp
    moreover have "run_within C (ret None) (\<lambda>_. True)"
      by (rule rw_ret) simp
    ultimately show ?thesis unfolding Some option.case by (rule rw_if)
  qed
  show "run_within C
     (try_except
        (bnd (on_world (nth_get_attribute b selector i ''id'')) (\<lambda>id_val.
           case id_val of
             None \<Rightarrow> ret None
           | Some v \<Rightarrow>
               if v \<noteq> [] then
                 bnd (on_world (inner_text b (''label[for='' @ [CHR 0x27] @ v @ [CHR 0x27] @ '']'')))
                   (\<lambda>label. ret (Some label))
               else ret None))
        (\<lambda>e. ret (Some []))) (\<lambda>_. True)"
    by (intro rw_try rw_bnd[OF rw_on_world] look rw_ret) simp
next
  fix returned :: "string option"
  show "run_within C (case returned of Some label \<Rightarrow> ret label | None \<Rightarrow> ret []) (\<lambda>_. True)"
    by (cases returned) (auto intro!: rw_ret)
qed

lemma rw_fill_from_profile: "run_within C (fill_from_profile b i items label) (\<lambda>_. True)"
proof (induction items)
  case Nil
  show ?case by (simp add: rw_ret)
next
  case (Cons item items)
  obtain key v where item: "item = (key, v)" by (cases item)
  have hit: "run_within C (bnd (on_world (nth_fill b text_inputs i v)) (\<lambda>_.
          on_world (human_sleep b 0.5 1))) (\<lambda>_. True)"
    by (intro rw_bnd[OF rw_on_world] rw_on_world)
  show ?case unfolding item fill_from_profile.simps
    by (cases "str_in key label") (simp_all only: if_True if_False hit Cons.IH)
qed

lemma rw_fill_input: "run_within C (fill_input b i) (\<lambda>_. True)"
  unfolding fill_input_def
proof (rule rw_bnd[OF rw_on_world])
  fix visible :: bool
  have inner: "run_within C
     (if \<not> truthy current then
        bnd (get_label b text_inputs i) (\<lambda>label.
          fill_from_profile b i (profile b) (py_lower label))
      else ret ()) (\<lambda>_. True)" for current
    by (cases "truthy current")
       (auto intro!: rw_ret rw_bnd[OF rw_get_label] rw_fill_from_profile)
  show "run_within C
     (if visible then
        bnd (on_world (nth_get_attribute b text_inputs i ''value'')) (\<lambda>current.
          if \<not> truthy current then
            bnd (get_label b text_inputs i) (\<lambda>label.
              fill_from_profile b i (profile b) (py_lower label))
          else ret ())
      else ret ()) (\<lambda>_. True)"
    by (cases visible) (auto intro!: rw_ret rw_bnd[OF rw_on_world] inner)
qed

lemma rw_fill_inputs: "run_within C (fill_inputs b i n) (\<lambda>_. True)"
  by (induction n arbitrary: i) (auto intro!: rw_ret rw_bnd[OF rw_fill_input])

lemma rw_answer_questions: "run_within C (answer_questions b i items content) (\<lambda>_. True)"
proof (induction items)
  case Nil
  show ?case by (simp add: rw_ret)
next
  case (Cons item items)
  obtain question answer where item: "item = (question, answer)" by (cases item)
  have pick: "run_within C
     (if visible then
        bnd (on_world (option_click b fieldset i answer)) (\<lambda>_.
          on_world (human_sleep b 0.5 1))
      else ret ()) (\<lambda>_. True)" for visible
    by (cases visible) (auto intro!: rw_ret rw_bnd[OF rw_on_world] rw_on_world)
  have one: "run_within C
     (if str_in question content then
        bnd (on_world (option_is_visible b fieldset i answer)) (\<lambda>visible.
          if visible then
            bnd (on_world (option_click b fieldset i answer)) (\<lambda>_.
              on_world (human_sleep b 0.5 1))
          else ret ())
      else ret ()) (\<lambda>_. True)"
    by (cases "str_in question content") (auto intro!: rw_ret rw_bnd[OF rw_on_world] pick)
  show ?case unfolding item answer_questions.simps
    by (rule rw_bnd[OF one]) (rule Cons.IH)
qed

lemma rw_fill_fieldsets: "run_within C (fill_fieldsets b i n) (\<lambda>_. True)"
proof (induction n arbitrary: i)
  case 0
  show ?case by (simp add: rw_ret)
next
  case (Suc n)
  have one: "run_within C
     (case content of
        None \<Rightarrow> raise ''AttributeError: NoneType object has no attribute lower''
      | Some t \<Rightarrow> answer_questions b i (answers b) (py_lower t)) (\<lambda>_. True)" for content
    by (cases content) (auto intro!: rw_raise rw_answer_questions)
  show ?case unfolding fill_fieldsets.simps
    by (intro rw_bnd[OF rw_on_world] rw_bnd[OF one] Suc.IH)
qed

lemma rw_fill: "run_within C (fill_smart_fields b) (\<lambda>_. True)"
  unfolding fill_smart_fields_def
  by (intro rw_try rw_bnd[OF rw_on_world] rw_bnd[OF rw_fill_inputs] rw_fill_fieldsets rw_ret) simp

lemma rw_upload: "run_within C (handle_upload b r) (\<lambda>_. True)"
  unfolding handle_upload_def
proof (intro rw_try rw_bnd[OF rw_on_world])
  fix visible :: bool
  have attach: "run_within C
     (if \<not> truthy current then
        bnd (on_world (set_input_files b file_input r)) (\<lambda>_.
          on_world (human_sleep b 2 4))
      else ret ()) (\<lambda>_. True)" for current
    by (cases "truthy current") (auto intro!: rw_ret rw_bnd[OF rw_on_world] rw_on_world)
  show "run_within C
     (if visible then
        bnd (on_world (get_attribute b file_input ''value'')) (\<lambda>current.
          if \<not> truthy current then
            bnd (on_world (set_input_files b file_input r)) (\<lambda>_.
              on_world (human_sleep b 2 4))
          else ret ())
      else ret ()) (\<lambda>_. True)"
    by (cases visible) (auto intro!: rw_ret rw_bnd[OF rw_on_world] attach)
next
  fix e :: fault
  show "run_within C (ret ()) (\<lambda>_. True)" by (rule rw_ret) simp
qed

lemma rw_probe:
  assumes "sel \<in> C"
  shows "run_within C
     (try_except (probe b sel)
        (\<lambda>e. bnd (on_world (human_sleep b 0.7 1.5)) (\<lambda>_. ret False))) (\<lambda>_. True)"
  unfolding probe_def
proof (intro rw_try)
  show "run_within C
     (bnd (on_world (locator_count b sel)) (\<lambda>n.
           if 0 < n then
             bnd (on_world (first_is_visible b sel)) (\<lambda>visible.
               if visible then bnd (click b sel) (\<lambda>_. ret True) else ret False)
           else ret False)) (\<lambda>_. True)"
  proof (rule rw_bnd[OF rw_on_world])
    fix n :: nat
    have inner: "run_within C (if visible then bnd (click b sel) (\<lambda>_. ret True) else ret False) (\<lambda>_. True)"
      for visible
      by (cases visible) (auto intro!: rw_ret rw_bnd[OF rw_click] assms)
    show "run_within C (if 0 < n then
             bnd (on_world (first_is_visible b sel)) (\<lambda>visible.
               if visible then bnd (click b sel) (\<lambda>_. ret True) else ret False)
           else ret False) (\<lambda>_. True)"
      by (cases "0 < n") (auto intro!: rw_ret rw_bnd[OF rw_on_world] inner simp del: One_nat_def)
  qed
next
  fix e
  show "run_within C (bnd (on_world (human_sleep b 0.7 1.5)) (\<lambda>_. ret False)) (\<lambda>_. True)"
    by (intro rw_bnd[OF rw_on_world] rw_ret) simp
qed

lemma rw_easy_apply: "set sels \<subseteq> C \<Longrightarrow> run_within C (click_easy_apply b sels) (\<lambda>_. True)"
proof (induction sels)
  case Nil
  then show ?case by (simp add: rw_ret)
next
  case (Cons sel sels)
  then have sel: "sel \<in> C" and rest: "run_within C (click_easy_apply b sels) (\<lambda>_. True)" by simp_all
  show ?case
    unfolding click_easy_apply.simps
  proof (rule rw_bnd[OF rw_probe[OF sel]])
    fix clicked :: bool
    show "run_within C (if clicked then ret True else click_easy_apply b sels) (\<lambda>_. True)"
      by (cases clicked) (auto intro!: rw_ret rest)
  qed
qed

lemma some_post: "P x \<Longrightarrow> \<forall>v. Some x = Some v \<longrightarrow> P v"
  by simp

lemma none_post: "\<forall>v. None = Some v \<longrightarrow> P v"
  by simp

lemma rw_submit:
  assumes "submit_button \<in> C"
  shows "run_within C
     (bnd (try_except
             (bnd (click b submit_button) (\<lambda>_.
              bnd (on_world (human_sleep b 3 5)) (\<lambda>_. ret None)))
             (\<lambda>e. ret (Some (''Failed (Submit error: '' @ e @ '')''))))
          (\<lambda>returned. case returned of
             Some v \<Rightarrow> ret (Some v)
           | None \<Rightarrow> ret (Some ''Success'')))
     (\<lambda>v. \<exists>out. v = Some out \<and> step_outcome out)"
proof (rule rw_bnd[where P="\<lambda>r. \<forall>v. r = Some v \<longrightarrow> step_outcome v"])
  show "run_within C
     (try_except
             (bnd (click b submit_button) (\<lambda>_.
              bnd (on_world (human_sleep b 3 5)) (\<lambda>_. ret None)))
             (\<lambda>e. ret (Some (''Failed (Submit error: '' @ e @ '')''))))
     (\<lambda>r. \<forall>v. r = Some v \<longrightarrow> step_outcome v)"
    by (intro rw_try rw_bnd[OF rw_click] rw_bnd[OF rw_on_world] rw_ret assms
          some_post[of step_outcome] none_post step_outcome_simps(2))
next
  fix returned :: "string option"
  assume "\<forall>v. returned = Some v \<longrightarrow> step_outcome v"
  then show "run_within C (case returned of
             Some v \<Rightarrow> ret (Some v)
           | None \<Rightarrow> ret (Some ''Success''))
     (\<lambda>v. \<exists>out. v = Some out \<and> step_outcome out)"
    by (cases returned) (auto intro!: rw_ret simp: step_outcome_simps(1))
qed

lemma rw_progress:
  assumes "next_button \<in> C" "review_button \<in> C"
  shows "run_within C
     (if next_visible then bnd (click b next_button) (\<lambda>_. ret None)
      else
        bnd (on_world (is_visible b review_button)) (\<lambda>review_visible.
          if review_visible then bnd (click b review_button) (\<lambda>_. ret None)
          else
            bnd (on_world (is_visible b error_message)) (\<lambda>error_visible.
              if error_visible then ret (Some ''Failed (Form Error)'')
              else ret (Some ''Failed (Stuck)''))))
     (\<lambda>r. \<forall>v. r = Some v \<longrightarrow> step_outcome v)"
proof (cases next_visible)
  case True
  then show ?thesis by (auto intro!: rw_bnd[OF rw_click] rw_ret assms)
next
  case False
  have err: "run_within C (if error_visible then ret (Some ''Failed (Form Error)'')
              else ret (Some ''Failed (Stuck)'')) (\<lambda>r. \<forall>v. r = Some v \<longrightarrow> step_outcome v)"
    for error_visible
    by (cases error_visible) (auto intro!: rw_ret simp: step_outcome_simps)
  have rev: "run_within C (if review_visible then bnd (click b review_button) (\<lambda>_. ret None)
          else
            bnd (on_world (is_visible b error_message)) (\<lambda>error_visible.
              if error_visible then ret (Some ''Failed (Form Error)'')
              else ret (Some ''Failed (Stuck)''))) (\<lambda>r. \<forall>v. r = Some v \<longrightarrow> step_outcome v)"
    for review_visible
    by (cases review_visible) (auto intro!: rw_bnd[OF rw_click] rw_bnd[OF rw_on_world] rw_ret assms err)
  show ?thesis using False by (auto intro!: rw_bnd[OF rw_on_world] rev)
qed

lemma rw_after_progress:
  assumes "\<forall>v. returned = Some v \<longrightarrow> step_outcome v"
  shows "run_within C (case returned of
                Some v \<Rightarrow> ret (Some v)
              | None \<Rightarrow>
                  bnd (on_world (human_sleep b 2 3)) (\<lambda>_.
                    ret (Some ''Failed (Too many steps)'')))
     (\<lambda>v. \<exists>out. v = Some out \<and> step_outcome out)"
  using assms
  by (cases returned) (auto intro!: rw_ret rw_bnd[OF rw_on_world] simp: step_outcome_simps(5))

lemma rw_form_step:
  assumes "next_button \<in> C" "review_button \<in> C" "\<not> dry_run \<Longrightarrow> submit_button \<in> C"
  shows "run_within C (form_step b dry_run r) (\<lambda>v. \<exists>out. v = Some out \<and> step_outcome out)"
  unfolding form_step_def
proof (intro rw_bnd[OF rw_fill] rw_bnd[OF rw_upload] rw_bnd[OF rw_on_world])
  fix submit_visible :: bool
  show "run_within C
          (if submit_visible then
         (if \<not> dry_run then
            bnd (try_except
                   (bnd (click b submit_button) (\<lambda>_.
                    bnd (on_world (human_sleep b 3 5)) (\<lambda>_. ret None)))
                   (\<lambda>e. ret (Some (''Failed (Submit error: '' @ e @ '')''))))
                (\<lambda>returned. case returned of
                   Some v \<Rightarrow> ret (Some v)
                 | None \<Rightarrow> ret (Some ''Success''))
          else ret (Some ''Success''))
       else
         bnd (on_world (is_visible b next_button)) (\<lambda>next_visible.
         bnd (if next_visible then bnd (click b next_button) (\<lambda>_. ret None)
              else
                bnd (on_world (is_visible b review_button)) (\<lambda>review_visible.
                  if review_visible then bnd (click b review_button) (\<lambda>_. ret None)
                  else
                    bnd (on_world (is_visible b error_message)) (\<lambda>error_visible.
                      if error_visible then ret (Some ''Failed (Form Error)'')
                      else ret (Some ''Failed (Stuck)''))))
             (\<lambda>returned. case returned of
                Some v \<Rightarrow> ret (Some v)
              | None \<Rightarrow>
                  bnd (on_world (human_sleep b 2 3)) (\<lambda>_.
                    ret (Some ''Failed (Too many steps)'')))))
          (\<lambda>v. \<exists>out. v = Some out \<and> step_outcome out)"
  proof (cases submit_visible)
    case True
    show ?thesis
    proof (cases dry_run)
      case True
      then show ?thesis using \<open>submit_visible\<close>
        by (auto intro!: rw_ret simp: step_outcome_simps(1))
    next
      case False
      then show ?thesis using \<open>submit_visible\<close> rw_submit[OF assms(3)[OF False]] by simp
    qed
  next
    case False
    have "run_within C
         (bnd (on_world (is_visible b next_button)) (\<lambda>next_visible.
         bnd (if next_visible then bnd (click b next_button) (\<lambda>_. ret None)
              else
                bnd (on_world (is_visible b review_button)) (\<lambda>review_visible.
                  if review_visible then bnd (click b review_button) (\<lambda>_. ret None)
                  else
                    bnd (on_world (is_visible b error_message)) (\<lambda>error_visible.
                      if error_visible then ret (Some ''Failed (Form Error)'')
                      else ret (Some ''Failed (Stuck)''))))
             (\<lambda>returned. case returned of
                Some v \<Rightarrow> ret (Some v)
              | None \<Rightarrow>
                  bnd (on_world (human_sleep b 2 3)) (\<lambda>_.
                    ret (Some ''Failed (Too many steps)'')))))
          (\<lambda>v. \<exists>out. v = Some out \<and> step_outcome out)"
      by (intro rw_bnd[OF rw_on_world] rw_bnd[OF rw_progress[OF assms(1,2)]] rw_after_progress)
    then show ?thesis using False by simp
  qed
qed

lemma form_step_Some:
  assumes "form_step b d r s = (Inr v, s')"
  shows "\<exists>out. v = Some out \<and> step_outcome out"
proof -
  have "run_within UNIV (form_step b d r) (\<lambda>v. \<exists>out. v = Some out \<and> step_outcome out)"
    by (rule rw_form_step) simp_all
  from run_withinD(3)[OF this assms] show ?thesis by simp
qed

lemma form_loop_Suc: "form_loop b d r (Suc n) s = form_step b d r s"
proof -
  obtain res s' where fs: "form_step b d r s = (res, s')" by (cases "form_step b d r s")
  show ?thesis
  proof (cases res)
    case (Inl e)
    then show ?thesis using fs by (simp add: bnd_def)
  next
    case (Inr v)
    with form_step_Some fs obtain out where "v = Some out" by blast
    then show ?thesis using fs Inr by (simp add: bnd_def ret_def)
  qed
qed

lemma form_loop_max: "form_loop b d r max_steps = form_step b d r"
proof
  fix s
  have m: "max_steps = Suc 9" by (simp add: max_steps_def)
  show "form_loop b d r max_steps s = form_step b d r s"
    unfolding m by (rule form_loop_Suc)
qed

lemma apply_body_eq:
  "apply_body b d url r =
     bnd (searching b url) (\<lambda>clicked.
       if \<not> clicked then ret (Some ''Skipped'')
       else bnd (on_world (human_sleep b 2 3)) (\<lambda>_. form_step b d r))"
  unfolding apply_body_def form_loop_max ..

lemma rw_searching:
  assumes "set apply_locators \<subseteq> C"
  shows "run_within C (searching b url) (\<lambda>_. True)"
  unfolding searching_def
  by (intro rw_bnd[OF rw_on_world] rw_easy_apply assms)

lemma rw_apply_body:
  assumes "set apply_locators \<subseteq> C" "next_button \<in> C" "review_button \<in> C"
    "\<not> dry_run \<Longrightarrow> submit_button \<in> C"
  shows "run_within C (apply_body b dry_run url r) (\<lambda>v. \<exists>out. v = Some out \<and> job_outcome out)"
  unfolding apply_body_eq
proof (rule rw_bnd[OF rw_searching[OF assms(1)]])
  fix clicked :: bool
  have step: "run_within C (form_step b dry_run r) (\<lambda>v. \<exists>out. v = Some out \<and> job_outcome out)"
    by (rule rw_weaken[OF rw_form_step[OF assms(2,3,4)]]) (auto simp: job_outcome_def)
  show "run_within C (if \<not> clicked then ret (Some ''Skipped'')
       else bnd (on_world (human_sleep b 2 3)) (\<lambda>_. form_step b dry_run r))
     (\<lambda>v. \<exists>out. v = Some out \<and> job_outcome out)"
  proof (cases clicked)
    case True
    then show ?thesis by (simp add: rw_bnd[OF rw_on_world] step)
  next
    case False
    have "job_outcome ''Skipped''" by (simp add: job_outcome_def)
    then show ?thesis using False by (simp add: rw_ret)
  qed
qed

lemma rw_try_body:
  assumes "set apply_locators \<subseteq> C" "next_button \<in> C" "review_button \<in> C"
    "\<not> dry_run \<Longrightarrow> submit_button \<in> C"
  shows "run_within C (try_except (apply_body b dry_run url r) (\<lambda>e. ret (Some (''Failed: '' @ e))))
           (\<lambda>v. \<exists>out. v = Some out \<and> job_outcome out)"
proof (intro rw_try rw_apply_body assms rw_ret)
  fix e
  have "job_outcome (''Failed: '' @ e)" unfolding job_outcome_def by blast
  then show "\<exists>out. Some (''Failed: '' @ e) = Some out \<and> job_outcome out" by blast
qed

lemma try_body_total:
  "\<exists>v s'. try_except (apply_body b d url r) (\<lambda>e. ret (Some (''Failed: '' @ e))) s = (Inr v, s')"
  by (cases "apply_body b d url r s") (auto simp: try_except_def ret_def split: sum.splits)

lemma try_body_outcome:
  "\<exists>out s'. try_except (apply_body b d url r) (\<lambda>e. ret (Some (''Failed: '' @ e))) s = (Inr (Some out), s')
      \<and> job_outcome out"
proof -
  obtain v s' where run: "try_except (apply_body b d url r) (\<lambda>e. ret (Some (''Failed: '' @ e))) s = (Inr v, s')"
    using try_body_total by blast
  have "run_within UNIV (try_except (apply_body b d url r) (\<lambda>e. ret (Some (''Failed: '' @ e))))
           (\<lambda>v. \<exists>out. v = Some out \<and> job_outcome out)"
    by (rule rw_try_body) simp_all
  from run_withinD(3)[OF this run] run show ?thesis by auto
qed

lemma reorder_outcomes:
  "A \<or> (B \<or> C \<or> D \<or> E \<or> F) \<or> G \<Longrightarrow> B \<or> A \<or> C \<or> D \<or> E \<or> F \<or> G"
  by blast

lemma job_outcomeD:
  assumes "job_outcome out"
  shows "out = ''Success'' \<or> out = ''Skipped''
         \<or> (\<exists>e. out = ''Failed (Submit error: '' @ e @ '')'')
         \<or> out = ''Failed (Form Error)'' \<or> out = ''Failed (Stuck)''
         \<or> out = ''Failed (Too many steps)'' \<or> (\<exists>e. out = ''Failed: '' @ e)"
  using assms unfolding job_outcome_def step_outcome_def by (rule reorder_outcomes)

lemma apply_to_job_started:
  assumes "page s"
  shows "apply_to_job b d url r s =
           try_except (apply_body b d url r) (\<lambda>e. ret (Some (''Failed: '' @ e))) s"
  using assms by (simp add: apply_to_job_def bnd_def ret_def)

lemma apply_to_job_starting:
  assumes "\<not> page s" "start_browser b s = (Inr (), s1)"
  shows "apply_to_job b d url r s =
           try_except (apply_body b d url r) (\<lambda>e. ret (Some (''Failed: '' @ e))) s1"
  using assms by (simp add: apply_to_job_def bnd_def)

lemma apply_to_job_returns:
  assumes "page s \<or> (\<exists>s1. start_browser b s = (Inr (), s1))"
  shows "\<exists>out s'. apply_to_job b d url r s = (Inr (Some out), s') \<and> job_outcome out"
proof (cases "page s")
  case True
  show ?thesis unfolding apply_to_job_started[OF True] by (rule try_body_outcome)
next
  case False
  with assms obtain s1 where "start_browser b s = (Inr (), s1)" by blast
  from apply_to_job_starting[OF False this] show ?thesis
    using try_body_outcome[of b d url r s1] by simp
qed

lemma goto_fault:
  assumes "goto b url (world s) = (Inl e, w')"
  shows "apply_body b d url r s = (Inl e, s\<lparr>world := w'\<rparr>)"
  using assms by (simp add: apply_body_def searching_def bnd_def on_world_def)

lemma submit_fault:
  assumes "fill_smart_fields b s1 = (Inr (), s2)"
    and "handle_upload b r s2 = (Inr (), s3)"
    and "on_world (is_visible b submit_button) s3 = (Inr True, s4)"
    and "click b submit_button s4 = (Inl e, s5)"
  shows "form_step b False r s1 = (Inr (Some (''Failed (Submit error: '' @ e @ '')'')), s5)"
  using assms by (simp add: form_step_def bnd_def try_except_def ret_def)

lemma probe_fault:
  assumes "probe b selector s0 = (Inl e, s1)"
    and "on_world (human_sleep b 0.7 1.5) s1 = (Inr (), s2)"
  shows "click_easy_apply b (selector # selectors) s0 = click_easy_apply b selectors s2"
  using assms by (simp add: bnd_def try_except_def ret_def)

lemma entering_try:
  assumes "if page s then s0 = s else start_browser b s = (Inr (), s0)"
  shows "apply_to_job b d url r s =
           try_except (apply_body b d url r) (\<lambda>e. ret (Some (''Failed: '' @ e))) s0"
proof (cases "page s")
  case True
  with assms have "s0 = s" by simp
  then show ?thesis using apply_to_job_started[OF True] by simp
next
  case False
  with assms have "start_browser b s = (Inr (), s0)" by simp
  from apply_to_job_starting[OF False this] show ?thesis .
qed

lemma no_clicks:
  assumes "run_within {} m Q" "m s = (r, s')"
  shows "clicks s' = clicks s"
  using run_withinD(2)[OF assms] by simp

lemma start_browser_clicks: "start_browser b s = (r, s') \<Longrightarrow> clicks s' = clicks s"
  by (auto simp: start_browser_def bnd_def on_world_def split: prod.splits sum.splits)

lemma submit_not_clicked:
  "submit_button \<notin> set apply_locators \<union> {next_button, review_button}"
  by (simp add: apply_locators_def submit_button_def next_button_def review_button_def)

lemma dry_run_clicks:
  "\<exists>cs. clicks (snd (apply_to_job b True url r s)) = clicks s @ cs \<and> submit_button \<notin> set cs"
proof -
  let ?C = "set apply_locators \<union> {next_button, review_button}"
  have rw: "run_within ?C (try_except (apply_body b True url r) (\<lambda>e. ret (Some (''Failed: '' @ e))))
           (\<lambda>v. \<exists>out. v = Some out \<and> job_outcome out)"
    by (rule rw_try_body) auto
  have body: "\<exists>cs. clicks (snd (try_except (apply_body b True url r)
                 (\<lambda>e. ret (Some (''Failed: '' @ e))) s0)) = clicks s0 @ cs \<and> submit_button \<notin> set cs"
    for s0
  proof -
    obtain v s' where run: "try_except (apply_body b True url r)
                 (\<lambda>e. ret (Some (''Failed: '' @ e))) s0 = (v, s')"
      by (cases "try_except (apply_body b True url r) (\<lambda>e. ret (Some (''Failed: '' @ e))) s0")
    from run_withinD(2)[OF rw run] obtain cs where cs: "clicks s' = clicks s0 @ cs" "set cs \<subseteq> ?C"
      by blast
    from cs(2) submit_not_clicked have "submit_button \<notin> set cs" by blast
    with cs(1) run show ?thesis by auto
  qed
  show ?thesis
  proof (cases "page s")
    case True
    show ?thesis unfolding apply_to_job_started[OF True] by (rule body)
  next
    case False
    obtain res s1 where sb: "start_browser b s = (res, s1)" by (cases "start_browser b s")
    note c1 = start_browser_clicks[OF sb]
    show ?thesis
    proof (cases res)
      case (Inl e)
      then have "apply_to_job b True url r s = (Inl e, s1)"
        using False sb by (simp add: apply_to_job_def bnd_def)
      then show ?thesis using c1 by simp
    next
      case (Inr u)
      then have "apply_to_job b True url r s
          = try_except (apply_body b True url r) (\<lambda>e. ret (Some (''Failed: '' @ e))) s1"
        using False sb by (simp add: apply_to_job_def bnd_def)
      then show ?thesis using body[of s1] c1 by simp
    qed
  qed
qed

lemma dry_run_step:
  assumes "fill_smart_fields b s1 = (Inr (), s2)"
    and "handle_upload b r s2 = (Inr (), s3)"
    and "on_world (is_visible b submit_button) s3 = (Inr True, s4)"
  shows "form_step b True r s1 = (Inr (Some ''Success''), s4)" "clicks s4 = clicks s1"
proof -
  show "form_step b True r s1 = (Inr (Some ''Success''), s4)"
    using assms by (simp add: form_step_def bnd_def ret_def)
  have "clicks s2 = clicks s1" using no_clicks[OF rw_fill assms(1)] .
  moreover have "clicks s3 = clicks s2" using no_clicks[OF rw_upload assms(2)] .
  moreover have "clicks s4 = clicks s3" using no_clicks[OF rw_on_world assms(3)] .
  ultimately show "clicks s4 = clicks s1" by simp
qed

subsection \<open>The claims about the Applicator\<close>

text \<open>
  Claim C1 (the code departs from it).  On a form whose first page shows a next button and
  whose second page shows the submit button, \<open>apply_to_job\<close> clicks next once and returns
  \<open>Failed (Too many steps)\<close> with the submit page showing: the \<open>return\<close> at the end of
  the loop body ends the first iteration of the ten.
\<close>

theorem apply_to_job_stops_after_first_step:
  "apply_to_job scripted False ''https://jobs.example/1'' ''cv.pdf'' (bot_at two_step_form True)
     = (Inr (Some ''Failed (Too many steps)''),
        \<lparr>world = [[submit_button]], page = True,
         clicks = [''button.jobs-apply-button'', next_button]\<rparr>)"
  by code_simp

text \<open>
  Claim C2, amended.  When \<open>self.page\<close> is set, or \<open>start_browser\<close> succeeds,
  \<open>apply_to_job\<close> returns one of the seven outcome strings and does not raise.  A fault
  that leaves the body of the \<open>try\<close> block, a navigation fault for one, is returned as
  \<open>Failed: \<close> followed by its description; \<open>_fill_smart_fields\<close> and \<open>_handle_upload\<close>
  swallow the faults of their bodies; a fault of the click on the submit button is returned
  as the submit failure; after a fault while an apply affordance is probed (counted, tested
  for visibility or clicked), the next candidate is tried.
\<close>

theorem apply_to_job_outcome:
  assumes "page s \<or> (\<exists>s1. start_browser b s = (Inr (), s1))"
  shows "(\<exists>out s'. apply_to_job b dry_run job_url resume_path s = (Inr (Some out), s')
            \<and> (out = ''Success'' \<or> out = ''Skipped''
                \<or> (\<exists>e. out = ''Failed (Submit error: '' @ e @ '')'')
                \<or> out = ''Failed (Form Error)'' \<or> out = ''Failed (Stuck)''
                \<or> out = ''Failed (Too many steps)'' \<or> (\<exists>e. out = ''Failed: '' @ e)))
       \<and> (\<forall>e s0 s'. (if page s then s0 = s else start_browser b s = (Inr (), s0))
             \<and> apply_body b dry_run job_url resume_path s0 = (Inl e, s') \<longrightarrow>
             apply_to_job b dry_run job_url resume_path s = (Inr (Some (''Failed: '' @ e)), s'))
       \<and> (\<forall>e s0 w'. (if page s then s0 = s else start_browser b s = (Inr (), s0))
             \<and> goto b job_url (world s0) = (Inl e, w') \<longrightarrow>
             apply_to_job b dry_run job_url resume_path s
               = (Inr (Some (''Failed: '' @ e)), s0\<lparr>world := w'\<rparr>))
       \<and> (\<exists>s'. fill_smart_fields b s = (Inr (), s'))
       \<and> (\<exists>s'. handle_upload b resume_path s = (Inr (), s'))
       \<and> (\<forall>e s1 s2 s3 s4 s5.
             fill_smart_fields b s1 = (Inr (), s2) \<and> handle_upload b resume_path s2 = (Inr (), s3)
             \<and> on_world (is_visible b submit_button) s3 = (Inr True, s4)
             \<and> click b submit_button s4 = (Inl e, s5) \<longrightarrow>
             form_step b False resume_path s1
               = (Inr (Some (''Failed (Submit error: '' @ e @ '')'')), s5))
       \<and> (\<forall>e selector selectors s0 s1 s2.
             probe b selector s0 = (Inl e, s1)
             \<and> on_world (human_sleep b 0.7 1.5) s1 = (Inr (), s2) \<longrightarrow>
             click_easy_apply b (selector # selectors) s0 = click_easy_apply b selectors s2)"
proof -
  from apply_to_job_returns[OF assms, of dry_run job_url resume_path] obtain out s' where
    run: "apply_to_job b dry_run job_url resume_path s = (Inr (Some out), s')"
    and out: "job_outcome out" by blast
  note cls = job_outcomeD[OF out]
  have 1: "\<exists>out s'. apply_to_job b dry_run job_url resume_path s = (Inr (Some out), s')
            \<and> (out = ''Success'' \<or> out = ''Skipped''
                \<or> (\<exists>e. out = ''Failed (Submit error: '' @ e @ '')'')
                \<or> out = ''Failed (Form Error)'' \<or> out = ''Failed (Stuck)''
                \<or> out = ''Failed (Too many steps)'' \<or> (\<exists>e. out = ''Failed: '' @ e))"
    by (rule exI[of _ out], rule exI[of _ s'], rule conjI[OF run cls])
  have caught: "apply_to_job b dry_run job_url resume_path s = (Inr (Some (''Failed: '' @ e)), s')"
    if enter: "if page s then s0 = s else start_browser b s = (Inr (), s0)"
      and body: "apply_body b dry_run job_url resume_path s0 = (Inl e, s')" for e s0 s'
  proof -
    have "apply_to_job b dry_run job_url resume_path s
        = try_except (apply_body b dry_run job_url resume_path) (\<lambda>e. ret (Some (''Failed: '' @ e))) s0"
      using enter by (rule entering_try)
    also have "\<dots> = (Inr (Some (''Failed: '' @ e)), s')"
      using body unfolding try_except_def ret_def by (simp del: append.simps)
    finally show ?thesis .
  qed
  have 2: "\<forall>e s0 s'. (if page s then s0 = s else start_browser b s = (Inr (), s0))
             \<and> apply_body b dry_run job_url resume_path s0 = (Inl e, s') \<longrightarrow>
             apply_to_job b dry_run job_url resume_path s = (Inr (Some (''Failed: '' @ e)), s')"
    by (intro allI impI, elim conjE, rule caught)
  have 3: "\<forall>e s0 w'. (if page s then s0 = s else start_browser b s = (Inr (), s0))
             \<and> goto b job_url (world s0) = (Inl e, w') \<longrightarrow>
             apply_to_job b dry_run job_url resume_path s
               = (Inr (Some (''Failed: '' @ e)), s0\<lparr>world := w'\<rparr>)"
  proof (intro allI impI, elim conjE)
    fix e s0 w'
    assume enter: "if page s then s0 = s else start_browser b s = (Inr (), s0)"
      and nav: "goto b job_url (world s0) = (Inl e, w')"
    from nav have "apply_body b dry_run job_url resume_path s0 = (Inl e, s0\<lparr>world := w'\<rparr>)"
      by (rule goto_fault)
    with enter show "apply_to_job b dry_run job_url resume_path s
               = (Inr (Some (''Failed: '' @ e)), s0\<lparr>world := w'\<rparr>)"
      by (rule caught)
  qed
  have 4: "\<exists>s'. fill_smart_fields b s = (Inr (), s')"
    by (simp add: fill_smart_fields_def try_except_def ret_def split: prod.splits sum.splits)
  have 5: "\<exists>s'. handle_upload b resume_path s = (Inr (), s')"
    by (simp add: handle_upload_def try_except_def ret_def split: prod.splits sum.splits)
  have 6: "\<forall>e s1 s2 s3 s4 s5.
             fill_smart_fields b s1 = (Inr (), s2) \<and> handle_upload b resume_path s2 = (Inr (), s3)
             \<and> on_world (is_visible b submit_button) s3 = (Inr True, s4)
             \<and> click b submit_button s4 = (Inl e, s5) \<longrightarrow>
             form_step b False resume_path s1
               = (Inr (Some (''Failed (Submit error: '' @ e @ '')'')), s5)"
    by (intro allI impI, elim conjE, rule submit_fault)
  have 7: "\<forall>e selector selectors s0 s1 s2.
             probe b selector s0 = (Inl e, s1)
             \<and> on_world (human_sleep b 0.7 1.5) s1 = (Inr (), s2) \<longrightarrow>
             click_easy_apply b (selector # selectors) s0 = click_easy_apply b selectors s2"
    by (intro allI impI, elim conjE, rule probe_fault)
  show ?thesis by (intro conjI 1 2 3 4 5 6 7)
qed

theorem apply_to_job_outcome_witness:
  "apply_to_job offline True ''https://jobs.example/1'' ''cv.pdf'' (bot_at one_step_form True)
     = (Inr (Some ''Failed: net::ERR_INTERNET_DISCONNECTED''), bot_at one_step_form True)
   \<and> apply_to_job offline True ''https://jobs.example/1'' ''cv.pdf'' (bot_at one_step_form False)
     = (Inr (Some ''Failed: net::ERR_INTERNET_DISCONNECTED''), bot_at one_step_form True)
   \<and> (\<exists>s'. fill_smart_fields broken_fields (bot_at one_step_form True) = (Inr (), s'))"
proof -
  have p: "page (bot_at one_step_form True) \<or>
           (\<exists>s1. start_browser offline (bot_at one_step_form True) = (Inr (), s1))"
    by (simp add: bot_at_def)
  have g: "(if page (bot_at one_step_form True) then bot_at one_step_form True = bot_at one_step_form True
            else start_browser offline (bot_at one_step_form True) = (Inr (), bot_at one_step_form True))
           \<and> goto offline ''https://jobs.example/1'' (world (bot_at one_step_form True))
             = (Inl ''net::ERR_INTERNET_DISCONNECTED'', one_step_form)"
    by (simp add: bot_at_def offline_def scripted_def)
  have w: "(bot_at one_step_form True)\<lparr>world := one_step_form\<rparr> = bot_at one_step_form True"
    by (simp add: bot_at_def)
  note t = apply_to_job_outcome[OF p, of True "''https://jobs.example/1''" "''cv.pdf''"]
  from t have "(if page (bot_at one_step_form True) then bot_at one_step_form True = bot_at one_step_form True
            else start_browser offline (bot_at one_step_form True) = (Inr (), bot_at one_step_form True))
           \<and> goto offline ''https://jobs.example/1'' (world (bot_at one_step_form True))
             = (Inl ''net::ERR_INTERNET_DISCONNECTED'', one_step_form) \<longrightarrow>
      apply_to_job offline True ''https://jobs.example/1'' ''cv.pdf'' (bot_at one_step_form True)
        = (Inr (Some (''Failed: '' @ ''net::ERR_INTERNET_DISCONNECTED'')),
           (bot_at one_step_form True)\<lparr>world := one_step_form\<rparr>)"
    by (elim conjE allE)
  with g w
  have a: "apply_to_job offline True ''https://jobs.example/1'' ''cv.pdf'' (bot_at one_step_form True)
     = (Inr (Some ''Failed: net::ERR_INTERNET_DISCONNECTED''), bot_at one_step_form True)"
    by simp
  have started: "start_browser offline (bot_at one_step_form False) = (Inr (), bot_at one_step_form True)"
    by (simp add: start_browser_def bnd_def on_world_def bot_at_def offline_def scripted_def)
  have q: "page (bot_at one_step_form False) \<or>
           (\<exists>s1. start_browser offline (bot_at one_step_form False) = (Inr (), s1))"
    using started by blast
  have g': "(if page (bot_at one_step_form False) then bot_at one_step_form True = bot_at one_step_form False
            else start_browser offline (bot_at one_step_form False) = (Inr (), bot_at one_step_form True))
           \<and> goto offline ''https://jobs.example/1'' (world (bot_at one_step_form True))
             = (Inl ''net::ERR_INTERNET_DISCONNECTED'', one_step_form)"
    using started by (simp add: bot_at_def offline_def scripted_def)
  note t' = apply_to_job_outcome[OF q, of True "''https://jobs.example/1''" "''cv.pdf''"]
  from t' have "(if page (bot_at one_step_form False) then bot_at one_step_form True = bot_at one_step_form False
            else start_browser offline (bot_at one_step_form False) = (Inr (), bot_at one_step_form True))
           \<and> goto offline ''https://jobs.example/1'' (world (bot_at one_step_form True))
             = (Inl ''net::ERR_INTERNET_DISCONNECTED'', one_step_form) \<longrightarrow>
      apply_to_job offline True ''https://jobs.example/1'' ''cv.pdf'' (bot_at one_step_form False)
        = (Inr (Some (''Failed: '' @ ''net::ERR_INTERNET_DISCONNECTED'')),
           (bot_at one_step_form True)\<lparr>world := one_step_form\<rparr>)"
    by (elim conjE allE)
  with g' w
  have a': "apply_to_job offline True ''https://jobs.example/1'' ''cv.pdf'' (bot_at one_step_form False)
     = (Inr (Some ''Failed: net::ERR_INTERNET_DISCONNECTED''), bot_at one_step_form True)"
    by simp
  have p': "page (bot_at one_step_form True) \<or>
           (\<exists>s1. start_browser broken_fields (bot_at one_step_form True) = (Inr (), s1))"
    by (simp add: bot_at_def)
  from apply_to_job_outcome[OF p', of True "''https://jobs.example/1''" "''cv.pdf''"]
  have b: "\<exists>s'. fill_smart_fields broken_fields (bot_at one_step_form True) = (Inr (), s')"
    by (elim conjE)
  show ?thesis using a a' b by (intro conjI)
qed

text \<open>
  Claim C2 as stated fails: a fault while the fields are scanned is swallowed and the call
  goes on to \<open>Success\<close>; a fault of the click on the submit button gives the submit
  failure, not \<open>Failed: ...\<close>; and a fault of \<open>start_browser\<close>, called before the \<open>try\<close>
  block, is raised to the caller.
\<close>

theorem apply_to_job_faults_counterexample:
  "fst (apply_to_job broken_fields True ''https://jobs.example/1'' ''cv.pdf'' (bot_at one_step_form True))
     = Inr (Some ''Success'')
   \<and> fst (apply_to_job broken_submit False ''https://jobs.example/1'' ''cv.pdf'' (bot_at one_step_form True))
     = Inr (Some ''Failed (Submit error: element is not attached)'')
   \<and> fst (apply_to_job no_chrome True ''https://jobs.example/1'' ''cv.pdf'' (bot_at one_step_form False))
     = Inl ''chrome is not found''"
  by code_simp

text \<open>
  Claim C8.  Under the dry-run policy, a pass through the form loop that finds the submit
  button visible returns \<open>Success\<close> without any call of \<open>human_click\<close>, so does the call of
  \<open>apply_to_job\<close> that reaches it, and no dry run ever calls \<open>human_click\<close> on the submit
  button.
\<close>

theorem dry_run_submit:
  assumes "fill_smart_fields b s1 = (Inr (), s2)"
    and "handle_upload b resume_path s2 = (Inr (), s3)"
    and "on_world (is_visible b submit_button) s3 = (Inr True, s4)"
  shows "form_step b True resume_path s1 = (Inr (Some ''Success''), s4)
       \<and> clicks s4 = clicks s1
       \<and> (\<forall>s s0. page s \<and> searching b job_url s = (Inr True, s0)
                  \<and> on_world (human_sleep b 2 3) s0 = (Inr (), s1) \<longrightarrow>
             apply_to_job b True job_url resume_path s = (Inr (Some ''Success''), s4))
       \<and> (\<forall>s. \<exists>cs. clicks (snd (apply_to_job b True job_url resume_path s)) = clicks s @ cs
                  \<and> submit_button \<notin> set cs)"
proof -
  note step = dry_run_step[OF assms]
  have call: "\<forall>s s0. page s \<and> searching b job_url s = (Inr True, s0)
                  \<and> on_world (human_sleep b 2 3) s0 = (Inr (), s1) \<longrightarrow>
             apply_to_job b True job_url resume_path s = (Inr (Some ''Success''), s4)"
  proof (intro allI impI)
    fix s s0
    assume a: "page s \<and> searching b job_url s = (Inr True, s0)
                  \<and> on_world (human_sleep b 2 3) s0 = (Inr (), s1)"
    then have "apply_body b True job_url resume_path s = (Inr (Some ''Success''), s4)"
      unfolding apply_body_eq using step(1) by (simp add: bnd_def)
    then show "apply_to_job b True job_url resume_path s = (Inr (Some ''Success''), s4)"
      using a by (simp add: apply_to_job_started try_except_def)
  qed
  have trace: "\<forall>s. \<exists>cs. clicks (snd (apply_to_job b True job_url resume_path s)) = clicks s @ cs
                  \<and> submit_button \<notin> set cs"
    using dry_run_clicks by blast
  show ?thesis by (intro conjI step call trace)
qed

theorem dry_run_submit_witness:
  "apply_to_job scripted True ''https://jobs.example/1'' ''cv.pdf'' (bot_at one_step_form True)
     = (Inr (Some ''Success''), \<lparr>world = [[submit_button]], page = True,
                                  clicks = [''button.jobs-apply-button'']\<rparr>)
   \<and> submit_button \<notin> set [''button.jobs-apply-button'']"
proof -
  let ?s1 = "\<lparr>world = [[submit_button]], page = True, clicks = [''button.jobs-apply-button'']\<rparr>"
  have 1: "fill_smart_fields scripted ?s1 = (Inr (), ?s1)" by code_simp
  have 2: "handle_upload scripted ''cv.pdf'' ?s1 = (Inr (), ?s1)" by code_simp
  have 3: "on_world (is_visible scripted submit_button) ?s1 = (Inr True, ?s1)" by code_simp
  have 4: "page (bot_at one_step_form True)
           \<and> searching scripted ''https://jobs.example/1'' (bot_at one_step_form True) = (Inr True, ?s1)
           \<and> on_world (human_sleep scripted 2 3) ?s1 = (Inr (), ?s1)"
    by code_simp
  from dry_run_submit[OF 1 2 3, of "''https://jobs.example/1''"]
  have "page (bot_at one_step_form True)
           \<and> searching scripted ''https://jobs.example/1'' (bot_at one_step_form True) = (Inr True, ?s1)
           \<and> on_world (human_sleep scripted 2 3) ?s1 = (Inr (), ?s1) \<longrightarrow>
        apply_to_job scripted True ''https://jobs.example/1'' ''cv.pdf'' (bot_at one_step_form True)
          = (Inr (Some ''Success''), ?s1)"
    by (elim conjE allE)
  with 4 have a: "apply_to_job scripted True ''https://jobs.example/1'' ''cv.pdf'' (bot_at one_step_form True)
          = (Inr (Some ''Success''), ?s1)" by (rule rev_mp)
  have b: "submit_button \<notin> set [''button.jobs-apply-button'']"
    by (simp add: submit_button_def)
  show ?thesis using a b by (rule conjI)
qed

end
